theory Spec2Isabelle
  imports Main
begin

unbundle bit_operations_syntax

section \<open>Python string primitives used by the sources\<close>

text \<open>
  Python integers are unbounded, so they are \<^typ>\<open>int\<close>; Python strings are
  \<^typ>\<open>string\<close>. The built-ins \<^verbatim>\<open>str\<close>, \<^verbatim>\<open>hex\<close>, the format
  specification \<^verbatim>\<open>02X\<close> and \<^verbatim>\<open>str.join\<close> are written out, since the
  generated text depends on them.
\<close>

definition lower_hex :: string where
  "lower_hex = ''0123456789abcdef''"

definition upper_hex :: string where
  "upper_hex = ''0123456789ABCDEF''"

definition dec_alphabet :: string where
  "dec_alphabet = ''0123456789''"

fun dec_digits :: "nat \<Rightarrow> string" where
  "dec_digits n =
     (if n < 10 then [dec_alphabet ! n]
      else dec_digits (n div 10) @ [dec_alphabet ! (n mod 10)])"

fun hex_digits :: "string \<Rightarrow> nat \<Rightarrow> string" where
  "hex_digits alphabet n =
     (if n < 16 then [alphabet ! n]
      else hex_digits alphabet (n div 16) @ [alphabet ! (n mod 16)])"

declare dec_digits.simps [simp del]
declare hex_digits.simps [simp del]

text \<open>\<^verbatim>\<open>str(i)\<close>, which is also what \<^verbatim>\<open>f"{i}"\<close> renders for an int.\<close>

definition str_int :: "int \<Rightarrow> string" where
  "str_int i = (if i < 0 then ''-'' @ dec_digits (nat (- i)) else dec_digits (nat i))"

text \<open>\<^verbatim>\<open>hex(i)\<close>: sign, the prefix \<^verbatim>\<open>0x\<close>, lower-case digits, no padding.\<close>

definition hex_py :: "int \<Rightarrow> string" where
  "hex_py i =
     (if i < 0 then ''-0x'' @ hex_digits lower_hex (nat (- i))
      else ''0x'' @ hex_digits lower_hex (nat i))"

text \<open>
  \<^verbatim>\<open>f"{i:02X}"\<close>: upper-case hexadecimal digits, zero-padded after the sign to a
  total width of two characters; wider values are not truncated.
\<close>

definition zfill :: "nat \<Rightarrow> string \<Rightarrow> string" where
  "zfill w s = replicate (w - length s) (CHR ''0'') @ s"

definition format_02X :: "int \<Rightarrow> string" where
  "format_02X i =
     (if i < 0 then ''-'' @ zfill 1 (hex_digits upper_hex (nat (- i)))
      else zfill 2 (hex_digits upper_hex (nat i)))"

text \<open>\<^verbatim>\<open>sep.join(parts)\<close>.\<close>

fun py_join :: "string \<Rightarrow> string list \<Rightarrow> string" where
  "py_join sep [] = []"
| "py_join sep [x] = x"
| "py_join sep (x # y # ys) = x @ sep @ py_join sep (y # ys)"

text \<open>Reading digits back, to state what a rendering denotes.\<close>

fun index_of :: "char \<Rightarrow> string \<Rightarrow> nat" where
  "index_of c [] = 0"
| "index_of c (d # ds) = (if c = d then 0 else Suc (index_of c ds))"

definition digits_value :: "nat \<Rightarrow> string \<Rightarrow> string \<Rightarrow> nat" where
  "digits_value base alphabet s = foldl (\<lambda>a c. base * a + index_of c alphabet) 0 s"

section \<open>Code generator (hotkeys/codegen.py)\<close>

definition gen_win_activate :: "int \<Rightarrow> string \<Rightarrow> string \<Rightarrow> string \<Rightarrow> string" where
  \<open>gen_win_activate hwnd title class_name process =
     (let parts0 = [];
          parts1 = (if title \<noteq> [] then parts0 @ [''Title: '' @ title] else parts0);
          parts2 = (if class_name \<noteq> [] then parts1 @ [''Class: '' @ class_name] else parts1);
          parts3 = (if process \<noteq> [] then parts2 @ [''Process: '' @ process] else parts2);
          comment = (if parts3 \<noteq> [] then ''  ; '' @ py_join '', '' parts3 else [])
      in ''WinActivate "ahk_id '' @ hex_py hwnd @ ''"'' @ comment)\<close>

definition gen_click :: "int \<Rightarrow> int \<Rightarrow> string \<Rightarrow> int \<Rightarrow> string \<Rightarrow> string" where
  \<open>gen_click x y button count coord_mode =
     (let header = ''CoordMode "Mouse", "'' @ coord_mode @ ''"\<newline>'' in
      if button = ''Left'' \<and> count = 1 then
        header @ ''Click '' @ str_int x @ '', '' @ str_int y
      else if button = ''Left'' \<and> count > 1 then
        header @ ''Click '' @ str_int x @ '', '' @ str_int y @ '',, '' @ str_int count
      else if count = 1 then
        header @ ''Click '' @ str_int x @ '', '' @ str_int y @ '', "'' @ button @ ''"''
      else
        header @ ''Click '' @ str_int x @ '', '' @ str_int y @ '', "'' @ button @ ''", ''
          @ str_int count)\<close>

definition gen_drag :: "int \<Rightarrow> int \<Rightarrow> int \<Rightarrow> int \<Rightarrow> string \<Rightarrow> string \<Rightarrow> string" where
  \<open>gen_drag x1 y1 x2 y2 button coord_mode =
     (let header = ''CoordMode "Mouse", "'' @ coord_mode @ ''"\<newline>'' in
      header @ ''MouseClickDrag "'' @ button @ ''", '' @ str_int x1 @ '', '' @ str_int y1
        @ '', '' @ str_int x2 @ '', '' @ str_int y2)\<close>

definition gen_pixel_loop ::
  "int \<Rightarrow> int \<Rightarrow> string \<Rightarrow> string \<Rightarrow> int \<Rightarrow> bool \<Rightarrow> string" where
  \<open>gen_pixel_loop x y target_color coord_mode variation use_pixel_search =
     (let header = ''CoordMode "Pixel", "'' @ coord_mode @ ''"\<newline>'' in
      if use_pixel_search then
        header
        @ ''Loop {\<newline>''
        @ ''    if PixelSearch(&FoundX, &FoundY, '' @ str_int x @ '', '' @ str_int y @ '', ''
            @ str_int x @ '', '' @ str_int y @ '', "'' @ target_color @ ''", ''
            @ str_int variation @ '')\<newline>''
        @ ''        break\<newline>''
        @ ''    Sleep 100\<newline>''
        @ ''}''
      else
        header
        @ ''Loop {\<newline>''
        @ ''    CurrentColor := PixelGetColor('' @ str_int x @ '', '' @ str_int y @ '')\<newline>''
        @ ''    if (CurrentColor = "'' @ target_color @ ''")\<newline>''
        @ ''        break\<newline>''
        @ ''    Sleep 100\<newline>''
        @ ''}'')\<close>

section \<open>Inspector data and snapshot capture (inspector/win_info.py)\<close>

record WindowInfo =
  title :: string
  class_name :: string
  hwnd :: int
  pid :: int
  process_name :: string
  exe_path :: string

record MouseCoords =
  screen_x :: int
  screen_y :: int
  window_x :: int
  window_y :: int
  client_x :: int
  client_y :: int

record ControlInfo =
  class_nn :: string
  hwnd :: int

record PixelColor =
  r :: int
  g :: int
  b :: int

record InspectorSnapshot =
  window :: WindowInfo
  coords :: MouseCoords
  control :: ControlInfo
  color :: PixelColor

text \<open>The dataclass defaults: what each constructor builds when called without arguments.\<close>

definition WindowInfo_default :: WindowInfo where
  "WindowInfo_default =
     \<lparr>title = [], class_name = [], WindowInfo.hwnd = 0, pid = 0, process_name = [],
      exe_path = []\<rparr>"

definition MouseCoords_default :: MouseCoords where
  "MouseCoords_default =
     \<lparr>screen_x = 0, screen_y = 0, window_x = 0, window_y = 0, client_x = 0, client_y = 0\<rparr>"

definition ControlInfo_default :: ControlInfo where
  "ControlInfo_default = \<lparr>class_nn = [], ControlInfo.hwnd = 0\<rparr>"

definition PixelColor_default :: PixelColor where
  "PixelColor_default = \<lparr>r = 0, g = 0, b = 0\<rparr>"

definition InspectorSnapshot_default :: InspectorSnapshot where
  "InspectorSnapshot_default =
     \<lparr>window = WindowInfo_default, coords = MouseCoords_default,
      control = ControlInfo_default, color = PixelColor_default\<rparr>"

definition hex_rgb :: "PixelColor \<Rightarrow> string" where
  "hex_rgb c = ''0x'' @ format_02X (r c) @ format_02X (g c) @ format_02X (b c)"

definition decimal_str :: "PixelColor \<Rightarrow> string" where
  "decimal_str c = str_int (r c) @ '', '' @ str_int (g c) @ '', '' @ str_int (b c)"

text \<open>
  The Win32 entry points the Windows branch calls, as the state of the operating system
  at the moment of the capture. A handle-valued call yields \<open>None\<close> where ctypes
  yields \<^verbatim>\<open>None\<close> (a NULL handle); a call that fills a buffer or a structure is
  given by what the wrapper reads back from it.
\<close>

record win32 =
  GetCursorPos :: "int \<times> int"
  WindowFromPoint :: "int \<times> int \<Rightarrow> int option"
  GetAncestor :: "int \<Rightarrow> int \<Rightarrow> int option"
  GetForegroundWindow :: "int option"
  GetWindowTextW :: "int \<Rightarrow> string"
  GetClassNameW :: "int \<Rightarrow> string"
  GetWindowThreadProcessId :: "int \<Rightarrow> int"
  OpenProcess :: "int \<Rightarrow> int option"
  QueryFullProcessImageNameW :: "int \<Rightarrow> string option"
  GetWindowRect :: "int \<Rightarrow> int \<times> int \<times> int \<times> int"
  ScreenToClient :: "int \<Rightarrow> int \<times> int \<Rightarrow> int \<times> int"
  RealChildWindowFromPoint :: "int \<Rightarrow> int \<times> int \<Rightarrow> int option"
  GetDC :: "int \<Rightarrow> int option"
  GetPixel :: "int \<Rightarrow> int \<Rightarrow> int \<Rightarrow> int"
  ntpath_basename :: "string \<Rightarrow> string"

definition GA_ROOT :: int where
  "GA_ROOT = 2"

text \<open>\<^verbatim>\<open>h or 0\<close> and \<^verbatim>\<open>h or d\<close> for a handle: \<^verbatim>\<open>None\<close> and 0 are both falsy.\<close>

definition handle_or :: "int option \<Rightarrow> int \<Rightarrow> int" where
  "handle_or h d = (case h of None \<Rightarrow> d | Some v \<Rightarrow> (if v = 0 then d else v))"

definition window_from_point :: "win32 \<Rightarrow> int \<Rightarrow> int \<Rightarrow> int" where
  "window_from_point api x y = handle_or (WindowFromPoint api (x, y)) 0"

definition get_root_window :: "win32 \<Rightarrow> int \<Rightarrow> int" where
  "get_root_window api h = handle_or (GetAncestor api h GA_ROOT) h"

definition get_foreground_window :: "win32 \<Rightarrow> int" where
  "get_foreground_window api = handle_or (GetForegroundWindow api) 0"

definition get_exe_path :: "win32 \<Rightarrow> int \<Rightarrow> string" where
  "get_exe_path api p =
     (case OpenProcess api p of
        None \<Rightarrow> []
      | Some handle \<Rightarrow>
          (if handle = 0 then []
           else (case QueryFullProcessImageNameW api handle of
                   Some path \<Rightarrow> path
                 | None \<Rightarrow> [])))"

definition get_process_name :: "win32 \<Rightarrow> string \<Rightarrow> string" where
  "get_process_name api exe = (if exe = [] then [] else ntpath_basename api exe)"

definition screen_to_window :: "win32 \<Rightarrow> int \<Rightarrow> int \<Rightarrow> int \<Rightarrow> int \<times> int" where
  "screen_to_window api h sx sy =
     (case GetWindowRect api h of (rect_left, rect_top, rect_right, rect_bottom) \<Rightarrow>
        (sx - rect_left, sy - rect_top))"

definition screen_to_client :: "win32 \<Rightarrow> int \<Rightarrow> int \<Rightarrow> int \<Rightarrow> int \<times> int" where
  "screen_to_client api h sx sy = ScreenToClient api h (sx, sy)"

definition get_control_at :: "win32 \<Rightarrow> int \<Rightarrow> int \<Rightarrow> int \<Rightarrow> ControlInfo" where
  "get_control_at api h sx sy =
     (let pt = ScreenToClient api h (sx, sy) in
      case RealChildWindowFromPoint api h pt of
        None \<Rightarrow> ControlInfo_default
      | Some child \<Rightarrow>
          (if child \<noteq> 0 \<and> child \<noteq> h
           then \<lparr>class_nn = GetClassNameW api child, ControlInfo.hwnd = child\<rparr>
           else ControlInfo_default))"

definition get_pixel_color :: "win32 \<Rightarrow> int \<Rightarrow> int \<Rightarrow> PixelColor" where
  "get_pixel_color api sx sy =
     (case GetDC api 0 of
        None \<Rightarrow> PixelColor_default
      | Some hdc \<Rightarrow>
          (if hdc = 0 then PixelColor_default
           else (let colorref = GetPixel api hdc sx sy in
                 if colorref = 0xFFFFFFFF then PixelColor_default
                 else \<lparr>r = colorref AND 0xFF,
                       g = drop_bit 8 colorref AND 0xFF,
                       b = drop_bit 16 colorref AND 0xFF\<rparr>)))"

definition capture_snapshot_windows :: "win32 \<Rightarrow> bool \<Rightarrow> int \<Rightarrow> InspectorSnapshot" where
  "capture_snapshot_windows api follow_mouse last_hwnd =
     (case GetCursorPos api of (sx, sy) \<Rightarrow>
       (let root_hwnd =
              (if follow_mouse then get_root_window api (window_from_point api sx sy)
               else if last_hwnd \<noteq> 0 then last_hwnd else get_foreground_window api);
            p = GetWindowThreadProcessId api root_hwnd;
            exe = get_exe_path api p;
            win = \<lparr>title = GetWindowTextW api root_hwnd,
                   class_name = GetClassNameW api root_hwnd,
                   WindowInfo.hwnd = root_hwnd, pid = p,
                   process_name = get_process_name api exe, exe_path = exe\<rparr>
        in case screen_to_window api root_hwnd sx sy of (wx, wy) \<Rightarrow>
           (case screen_to_client api root_hwnd sx sy of (cx, cy) \<Rightarrow>
             \<lparr>window = win,
              coords = \<lparr>screen_x = sx, screen_y = sy, window_x = wx, window_y = wy,
                        client_x = cx, client_y = cy\<rparr>,
              control = get_control_at api root_hwnd sx sy,
              color = get_pixel_color api sx sy\<rparr>)))"

text \<open>
  The module defines \<^verbatim>\<open>capture_snapshot\<close> twice, under
  \<^verbatim>\<open>if _IS_WINDOWS: ... else: ...\<close>; the flag is the first argument here.
\<close>

definition capture_snapshot :: "bool \<Rightarrow> win32 \<Rightarrow> bool \<Rightarrow> int \<Rightarrow> InspectorSnapshot" where
  "capture_snapshot IS_WINDOWS api follow_mouse last_hwnd =
     (if IS_WINDOWS then capture_snapshot_windows api follow_mouse last_hwnd
      else InspectorSnapshot_default)"

section \<open>Global hotkeys (hotkeys/global_hotkeys.py)\<close>

definition MOD_CONTROL :: int where
  "MOD_CONTROL = 0x0002"

definition MOD_SHIFT :: int where
  "MOD_SHIFT = 0x0004"

definition MOD_NOREPEAT :: int where
  "MOD_NOREPEAT = 0x4000"

datatype HotkeyID = CLICK | DRAG | PIXEL_LOOP | WIN_ACTIVATE

text \<open>\<^verbatim>\<open>int(hid)\<close> and \<^verbatim>\<open>hid.name\<close> of the IntEnum.\<close>

fun HotkeyID_int :: "HotkeyID \<Rightarrow> int" where
  "HotkeyID_int CLICK = 1"
| "HotkeyID_int DRAG = 2"
| "HotkeyID_int PIXEL_LOOP = 3"
| "HotkeyID_int WIN_ACTIVATE = 4"

fun HotkeyID_name :: "HotkeyID \<Rightarrow> string" where
  "HotkeyID_name CLICK = ''CLICK''"
| "HotkeyID_name DRAG = ''DRAG''"
| "HotkeyID_name PIXEL_LOOP = ''PIXEL_LOOP''"
| "HotkeyID_name WIN_ACTIVATE = ''WIN_ACTIVATE''"

datatype py_error = TypeError

text \<open>
  A hotkey's key and the messages built from it are Python strings, which are sequences
  of Unicode code points: they are lists of naturals here, and \<open>codepoints\<close> gives
  the code points of an ASCII literal of the source. \<^verbatim>\<open>ord\<close> raises TypeError
  unless its argument is a string of length one. \<^verbatim>\<open>str.upper\<close> is the
  interpreter's (it follows the Unicode case tables and may change the length of a
  string); it is the parameter \<open>upper\<close> of the functions below.
\<close>

type_synonym py_str = "nat list"

definition codepoints :: "string \<Rightarrow> py_str" where
  "codepoints s = map of_char s"

definition py_ord :: "py_str \<Rightarrow> py_error + int" where
  "py_ord s = (case s of [c] \<Rightarrow> Inr (int c) | _ \<Rightarrow> Inl TypeError)"

datatype NativeFilter = NativeFilter

text \<open>
  What the manager acts on outside itself: the state of user32 (of any type; the
  parameter \<open>rhk\<close> below is RegisterHotKey on it), the calls of RegisterHotKey made
  so far with their results, and the application object: \<open>None\<close> when
  \<^verbatim>\<open>QApplication.instance()\<close> is None, else the number of native event filters
  installed on it.
\<close>

record 'os hotkey_world =
  user32 :: 'os
  RegisterHotKey_calls :: "((int \<times> int \<times> int \<times> int) \<times> bool) list"
  app_native_filters :: "nat option"

record HotkeyManager =
  registered :: "int \<rightharpoonup> int"
  native_filter :: "NativeFilter option"

definition HotkeyManager_init :: HotkeyManager where
  "HotkeyManager_init = \<lparr>registered = Map.empty, native_filter = None\<rparr>"

definition RegisterHotKey ::
  "('os \<Rightarrow> int \<times> int \<times> int \<times> int \<Rightarrow> bool \<times> 'os) \<Rightarrow> 'os hotkey_world
     \<Rightarrow> int \<times> int \<times> int \<times> int \<Rightarrow> bool \<times> 'os hotkey_world" where
  "RegisterHotKey rhk w a =
     (case rhk (user32 w) a of
        (ok, os') \<Rightarrow>
          (ok, w\<lparr>user32 := os', RegisterHotKey_calls := RegisterHotKey_calls w @ [(a, ok)]\<rparr>))"

definition failure_message :: "HotkeyID \<Rightarrow> py_str \<Rightarrow> py_str" where
  "failure_message hid letter =
     codepoints ''Failed to register Ctrl+Shift+'' @ letter @ codepoints '' (id=''
     @ codepoints (HotkeyID_name hid) @ codepoints '')''"

text \<open>
  The \<^verbatim>\<open>for hid, letter in bindings.items()\<close> loop; a dict iterates in insertion
  order, so the bindings are an association list. An exception leaves the loop with
  the state reached so far.
\<close>

fun register_bindings ::
  "(py_str \<Rightarrow> py_str) \<Rightarrow> ('os \<Rightarrow> int \<times> int \<times> int \<times> int \<Rightarrow> bool \<times> 'os)
     \<Rightarrow> (HotkeyID \<times> py_str) list \<Rightarrow> py_str list \<Rightarrow> HotkeyManager \<Rightarrow> 'os hotkey_world
     \<Rightarrow> (py_error + py_str list) \<times> HotkeyManager \<times> 'os hotkey_world" where
  "register_bindings upper rhk [] errors m w = (Inr errors, m, w)"
| "register_bindings upper rhk ((hid, letter) # rest) errors m w =
     (case py_ord (upper letter) of
        Inl e \<Rightarrow> (Inl e, m, w)
      | Inr vk \<Rightarrow>
          (let mods = MOD_CONTROL OR MOD_SHIFT OR MOD_NOREPEAT in
           case RegisterHotKey rhk w (0, HotkeyID_int hid, mods, vk) of
             (ok, w') \<Rightarrow>
               if ok then
                 register_bindings upper rhk rest errors
                   (m\<lparr>registered := (registered m)(HotkeyID_int hid \<mapsto> vk)\<rparr>) w'
               else
                 register_bindings upper rhk rest (errors @ [failure_message hid letter]) m w'))"

definition register_all ::
  "bool \<Rightarrow> (py_str \<Rightarrow> py_str) \<Rightarrow> ('os \<Rightarrow> int \<times> int \<times> int \<times> int \<Rightarrow> bool \<times> 'os)
     \<Rightarrow> (HotkeyID \<times> py_str) list \<Rightarrow> HotkeyManager \<Rightarrow> 'os hotkey_world
     \<Rightarrow> (py_error + py_str list) \<times> HotkeyManager \<times> 'os hotkey_world" where
  "register_all IS_WINDOWS upper rhk bindings m w =
     (if \<not> IS_WINDOWS then (Inr [codepoints ''Global hotkeys require Windows''], m, w)
      else
        (case register_bindings upper rhk bindings [] m w of
           (Inl e, m', w') \<Rightarrow> (Inl e, m', w')
         | (Inr errors, m', w') \<Rightarrow>
             (case native_filter m' of
                Some f \<Rightarrow> (Inr errors, m', w')
              | None \<Rightarrow>
                  (Inr errors, m'\<lparr>native_filter := Some NativeFilter\<rparr>,
                   (case app_native_filters w' of
                      None \<Rightarrow> w'
                    | Some n \<Rightarrow> w'\<lparr>app_native_filters := Some (Suc n)\<rparr>)))))"

section \<open>Script runner (editor/runner.py)\<close>

datatype RunState = IDLE | RUNNING | ERROR

datatype ProcessState = NotRunning | Starting | Running

datatype ExitStatus = NormalExit | CrashExit

datatype signal =
  state_changed RunState
| stdout_ready string
| stderr_ready string
| finished int string

record QProcess =
  proc_id :: nat
  proc_state :: ProcessState
  working_directory :: string

record QTimer =
  single_shot :: bool
  interval :: int
  active :: bool

datatype os_action =
  WriteFile string string
| RemoveFile string
| StartProcess nat string "string list"
| Terminate nat
| Kill nat

text \<open>
  What \<^verbatim>\<open>start\<close> followed by \<^verbatim>\<open>waitForStarted(3000)\<close> can come to: the child
  runs; it could not be started; or the wait ran out with the child still starting.
\<close>

datatype start_outcome = Started | FailedToStart | StartTimedOut

record RunRequest =
  ahk_exe :: string
  script_path :: string
  flags :: string
  args :: string
  working_dir :: string
  unsaved_text :: "string option"

text \<open>
  The first four fields are the runner's own attributes. \<open>process\<close> holds the
  current QProcess object with the state its \<^verbatim>\<open>state()\<close> reports;
  \<open>kill_timer\<close> refers to a QTimer by its position in \<open>timers\<close>. The other
  fields are what lives around the runner: every QTimer created with the runner as
  parent (Qt keeps such an object, and its connection, alive when the attribute is
  overwritten), the number of QProcess objects created, the temporary files on disk,
  the signals emitted and the requests made to the operating system, both in order.
\<close>

record AHKRunner =
  process :: "QProcess option"
  state :: RunState
  temp_file :: "string option"
  kill_timer :: "nat option"
  timers :: "QTimer list"
  processes_created :: nat
  files :: "string set"
  emitted :: "signal list"
  os_actions :: "os_action list"

definition AHKRunner_init :: AHKRunner where
  "AHKRunner_init =
     \<lparr>process = None, state = IDLE, temp_file = None, kill_timer = None, timers = [],
      processes_created = 0, files = {}, emitted = [], os_actions = []\<rparr>"

definition emit :: "signal \<Rightarrow> AHKRunner \<Rightarrow> AHKRunner" where
  "emit sg s = s\<lparr>emitted := emitted s @ [sg]\<rparr>"

definition set_state :: "RunState \<Rightarrow> AHKRunner \<Rightarrow> AHKRunner" where
  "set_state st s = emit (state_changed st) (s\<lparr>state := st\<rparr>)"

text \<open>
  \<^verbatim>\<open>self._process is not None and self._process.state() != NotRunning\<close>, the test
  shared by \<^verbatim>\<open>run\<close>, \<^verbatim>\<open>stop\<close> and \<^verbatim>\<open>_hard_kill\<close>.
\<close>

definition live :: "AHKRunner \<Rightarrow> bool" where
  "live s = (case process s of None \<Rightarrow> False | Some p \<Rightarrow> proc_state p \<noteq> NotRunning)"

text \<open>
  \<^verbatim>\<open>str.split()\<close> without arguments: split at runs of whitespace (the ASCII
  whitespace characters), no empty words.
\<close>

definition is_space :: "char \<Rightarrow> bool" where
  "is_space c =
     (c \<in> set [CHR 0x09, CHR 0x0A, CHR 0x0B, CHR 0x0C, CHR 0x0D, CHR 0x1C, CHR 0x1D,
                CHR 0x1E, CHR 0x1F, CHR 0x20])"

fun split_ws :: "string \<Rightarrow> string \<Rightarrow> string list" where
  "split_ws cur [] = (if cur = [] then [] else [cur])"
| "split_ws cur (c # cs) =
     (if is_space c then (if cur = [] then split_ws [] cs else cur # split_ws [] cs)
      else split_ws (cur @ [c]) cs)"

definition py_split :: "string \<Rightarrow> string list" where
  "py_split s = split_ws [] s"

definition start_process :: "string \<Rightarrow> string list \<Rightarrow> start_outcome \<Rightarrow> AHKRunner \<Rightarrow> AHKRunner" where
  "start_process program arguments outcome s =
     (case process s of
        None \<Rightarrow> s
      | Some p \<Rightarrow>
          s\<lparr>process :=
              Some (p\<lparr>proc_state :=
                        (case outcome of
                           Started \<Rightarrow> Running
                         | FailedToStart \<Rightarrow> NotRunning
                         | StartTimedOut \<Rightarrow> Starting)\<rparr>),
            os_actions := os_actions s @ [StartProcess (proc_id p) program arguments]\<rparr>)"

text \<open>
  \<^verbatim>\<open>run\<close>. \<open>dirname\<close> is \<^verbatim>\<open>os.path.dirname\<close> of the platform, \<open>tmp\<close> the
  path \<^verbatim>\<open>mkstemp\<close> returns when it is called, \<open>outcome\<close> what the start comes
  to. \<open>cmd_parts\<close> begins with \<open>ahk_exe\<close>, so \<^verbatim>\<open>cmd_parts[0]\<close> and
  \<^verbatim>\<open>cmd_parts[1:]\<close> are its head and tail.
\<close>

definition run ::
  "(string \<Rightarrow> string) \<Rightarrow> RunRequest \<Rightarrow> string \<Rightarrow> start_outcome \<Rightarrow> AHKRunner \<Rightarrow> AHKRunner" where
  \<open>run dirname req tmp outcome s =
     (if live s then s
      else
        (let s1 = (case unsaved_text req of
                     None \<Rightarrow> s
                   | Some text \<Rightarrow>
                       s\<lparr>temp_file := Some tmp, files := insert tmp (files s),
                         os_actions := os_actions s @ [WriteFile tmp text]\<rparr>);
             target = (case unsaved_text req of None \<Rightarrow> script_path req | Some text \<Rightarrow> tmp);
             wd = (if working_dir req = [] then dirname target else working_dir req);
             cmd_parts =
               [ahk_exe req]
               @ (if flags req \<noteq> [] then py_split (flags req) else [])
               @ [target]
               @ (if args req \<noteq> [] then py_split (args req) else []);
             p = \<lparr>proc_id = Suc (processes_created s1), proc_state = NotRunning,
                  working_directory = wd\<rparr>;
             s2 = s1\<lparr>process := Some p, processes_created := Suc (processes_created s1)\<rparr>;
             program = hd cmd_parts;
             arguments = tl cmd_parts;
             s3 = set_state RUNNING s2;
             s4 = emit (stdout_ready (''>> '' @ py_join '' '' cmd_parts @ ''\<newline>'')) s3;
             s5 = start_process program arguments outcome s4
         in if outcome \<noteq> Started then
              emit (finished (- 1) ''Failed to start AHK process'') (set_state ERROR s5)
            else s5))\<close>

definition stop :: "int \<Rightarrow> AHKRunner \<Rightarrow> AHKRunner" where
  "stop graceful_timeout_ms s =
     (case process s of
        None \<Rightarrow> s
      | Some p \<Rightarrow>
          (if proc_state p = NotRunning then s
           else
             s\<lparr>os_actions := os_actions s @ [Terminate (proc_id p)],
               timers := timers s
                 @ [\<lparr>single_shot = True, interval = graceful_timeout_ms, active = True\<rparr>],
               kill_timer := Some (length (timers s))\<rparr>))"

definition hard_kill :: "AHKRunner \<Rightarrow> AHKRunner" where
  "hard_kill s =
     (case process s of
        None \<Rightarrow> s
      | Some p \<Rightarrow>
          (if proc_state p \<noteq> NotRunning then s\<lparr>os_actions := os_actions s @ [Kill (proc_id p)]\<rparr>
           else s))"

definition on_stdout :: "string \<Rightarrow> AHKRunner \<Rightarrow> AHKRunner" where
  "on_stdout data s = (case process s of None \<Rightarrow> s | Some p \<Rightarrow> emit (stdout_ready data) s)"

definition on_stderr :: "string \<Rightarrow> AHKRunner \<Rightarrow> AHKRunner" where
  "on_stderr data s = (case process s of None \<Rightarrow> s | Some p \<Rightarrow> emit (stderr_ready data) s)"

text \<open>
  \<^verbatim>\<open>_on_finished\<close>. \<open>remove_ok\<close> says whether \<^verbatim>\<open>os.remove\<close> succeeds; its
  OSError is swallowed.
\<close>

definition on_finished :: "int \<Rightarrow> ExitStatus \<Rightarrow> bool \<Rightarrow> AHKRunner \<Rightarrow> AHKRunner" where
  "on_finished exit_code exit_status remove_ok s =
     (let s1 = (case kill_timer s of
                  None \<Rightarrow> s
                | Some i \<Rightarrow>
                    s\<lparr>timers := (timers s)[i := (timers s ! i)\<lparr>active := False\<rparr>],
                      kill_timer := None\<rparr>);
          s2 = (case temp_file s1 of
                  None \<Rightarrow> s1
                | Some f \<Rightarrow>
                    (if f \<noteq> [] \<and> f \<in> files s1 then
                       (if remove_ok then
                          s1\<lparr>files := files s1 - {f},
                             os_actions := os_actions s1 @ [RemoveFile f], temp_file := None\<rparr>
                        else s1\<lparr>os_actions := os_actions s1 @ [RemoveFile f], temp_file := None\<rparr>)
                     else s1))
      in if exit_code = 0 then
           emit (finished exit_code ''Process exited normally'') (set_state IDLE s2)
         else
           (let label = (if exit_status = CrashExit then ''crashed'' else ''exited'') in
            emit (finished exit_code
                    (''Process '' @ label @ '' with code '' @ str_int exit_code))
              (set_state ERROR s2)))"

text \<open>
  The events of the Qt event loop that reach the runner: the two public calls, the
  \<^verbatim>\<open>finished\<close> signal of the running child (Qt first sets the process state to
  NotRunning), the \<^verbatim>\<open>timeout\<close> signal of an active timer (a single-shot timer
  is inactive from then on), a child that was still starting when the wait ran out and
  now runs or fails (QProcess emits no \<^verbatim>\<open>finished\<close> for a failed start), and
  output becoming readable.
\<close>

datatype event =
  Run RunRequest string start_outcome
| Stop int
| ProcessFinished int ExitStatus bool
| TimerFires nat
| StartResolved bool
| ReadyReadStdout string
| ReadyReadStderr string

definition process_finished :: "int \<Rightarrow> ExitStatus \<Rightarrow> bool \<Rightarrow> AHKRunner \<Rightarrow> AHKRunner" where
  "process_finished exit_code exit_status remove_ok s =
     (case process s of
        None \<Rightarrow> s
      | Some p \<Rightarrow>
          (if proc_state p = Running then
             on_finished exit_code exit_status remove_ok
               (s\<lparr>process := Some (p\<lparr>proc_state := NotRunning\<rparr>)\<rparr>)
           else s))"

definition timer_fires :: "nat \<Rightarrow> AHKRunner \<Rightarrow> AHKRunner" where
  "timer_fires i s =
     (if i < length (timers s) \<and> active (timers s ! i) then
        hard_kill (s\<lparr>timers := (timers s)[i := (timers s ! i)\<lparr>active := False\<rparr>]\<rparr>)
      else s)"

definition start_resolved :: "bool \<Rightarrow> AHKRunner \<Rightarrow> AHKRunner" where
  "start_resolved ok s =
     (case process s of
        None \<Rightarrow> s
      | Some p \<Rightarrow>
          (if proc_state p = Starting then
             s\<lparr>process := Some (p\<lparr>proc_state := (if ok then Running else NotRunning)\<rparr>)\<rparr>
           else s))"

fun step :: "(string \<Rightarrow> string) \<Rightarrow> AHKRunner \<Rightarrow> event \<Rightarrow> AHKRunner" where
  "step dirname s (Run req tmp outcome) = run dirname req tmp outcome s"
| "step dirname s (Stop ms) = stop ms s"
| "step dirname s (ProcessFinished exit_code exit_status remove_ok) =
     process_finished exit_code exit_status remove_ok s"
| "step dirname s (TimerFires i) = timer_fires i s"
| "step dirname s (StartResolved ok) = start_resolved ok s"
| "step dirname s (ReadyReadStdout data) = on_stdout data s"
| "step dirname s (ReadyReadStderr data) = on_stderr data s"

definition exec :: "(string \<Rightarrow> string) \<Rightarrow> event list \<Rightarrow> AHKRunner \<Rightarrow> AHKRunner" where
  "exec dirname evs s = foldl (step dirname) s evs"

section \<open>Digits and what they denote\<close>

lemma index_of_nth: "distinct xs \<Longrightarrow> k < length xs \<Longrightarrow> index_of (xs ! k) xs = k"
proof (induction xs arbitrary: k)
  case Nil then show ?case by simp
next
  case (Cons a xs)
  show ?case
  proof (cases k)
    case 0 then show ?thesis by simp
  next
    case (Suc j)
    with Cons.prems have "j < length xs" "distinct xs" "xs ! j \<noteq> a"
      by auto
    with Cons.IH Suc show ?thesis by auto
  qed
qed

lemma digits_value_snoc:
  "digits_value base al (s @ [c]) = base * digits_value base al s + index_of c al"
  by (simp add: digits_value_def)

lemma digits_value_single: "digits_value base al [c] = index_of c al"
  by (simp add: digits_value_def)

lemma hex_digits_value:
  "distinct al \<Longrightarrow> length al = 16 \<Longrightarrow> digits_value 16 al (hex_digits al n) = n"
proof (induction al n rule: hex_digits.induct)
  case (1 al n)
  show ?case
  proof (cases "n < 16")
    case True
    with 1 show ?thesis
      by (simp add: hex_digits.simps[of al n] digits_value_single index_of_nth)
  next
    case False
    with 1 show ?thesis
      by (simp add: hex_digits.simps[of al n] digits_value_snoc index_of_nth)
  qed
qed

lemma dec_digits_value: "digits_value 10 dec_alphabet (dec_digits n) = n"
proof (induction n rule: dec_digits.induct)
  case (1 n)
  have d: "distinct dec_alphabet" "length dec_alphabet = 10" by (simp_all add: dec_alphabet_def)
  show ?case
  proof (cases "n < 10")
    case True
    with d show ?thesis
      by (simp add: dec_digits.simps[of n] digits_value_single index_of_nth)
  next
    case False
    with 1 d show ?thesis
      by (simp add: dec_digits.simps[of n] digits_value_snoc index_of_nth)
  qed
qed

lemma dec_digits_set: "set (dec_digits n) \<subseteq> set dec_alphabet"
proof (induction n rule: dec_digits.induct)
  case (1 n)
  have l: "length dec_alphabet = 10" by (simp add: dec_alphabet_def)
  show ?case
  proof (cases "n < 10")
    case True
    then show ?thesis using l by (simp add: dec_digits.simps[of n])
  next
    case False
    with 1 l show ?thesis by (simp add: dec_digits.simps[of n])
  qed
qed

lemma hex_digits_set: "length al = 16 \<Longrightarrow> set (hex_digits al n) \<subseteq> set al"
proof (induction al n rule: hex_digits.induct)
  case (1 al n)
  show ?case
  proof (cases "n < 16")
    case True
    then show ?thesis using 1 by (simp add: hex_digits.simps[of al n])
  next
    case False
    with 1 show ?thesis by (simp add: hex_digits.simps[of al n])
  qed
qed

lemma hex_digits_byte:
  assumes "n < 256"
  shows "hex_digits al n = (if n < 16 then [al ! n] else [al ! (n div 16), al ! (n mod 16)])"
proof (cases "n < 16")
  case True
  then show ?thesis by (simp add: hex_digits.simps[of al n])
next
  case False
  from assms have "n div 16 < 16" by simp
  with False show ?thesis
    by (simp add: hex_digits.simps[of al n] hex_digits.simps[of al "n div 16"])
qed

lemma format_02X_byte:
  assumes "0 \<le> v" "v \<le> 255"
  shows "format_02X v = [upper_hex ! nat (v div 16), upper_hex ! nat (v mod 16)]"
proof -
  from assms have n: "nat v < 256" by simp
  have d: "nat v div 16 = nat (v div 16)" "nat v mod 16 = nat (v mod 16)"
    using assms by (simp_all add: nat_div_distrib nat_mod_distrib)
  have z: "nat v < 16 \<Longrightarrow> nat (v div 16) = 0 \<and> nat (v mod 16) = nat v"
    using assms by auto
  have u0: "upper_hex ! 0 = CHR ''0''" by (simp add: upper_hex_def)
  show ?thesis
  proof (cases "nat v < 16")
    case True
    with z u0 show ?thesis
      using assms by (simp add: format_02X_def hex_digits_byte[OF n] zfill_def)
  next
    case False
    then show ?thesis
      using assms d by (simp add: format_02X_def hex_digits_byte[OF n] zfill_def)
  qed
qed

lemma byte_digits_value:
  assumes "0 \<le> v" "v \<le> 255"
  shows "digits_value 16 upper_hex [upper_hex ! nat (v div 16), upper_hex ! nat (v mod 16)] = nat v"
proof -
  have al: "distinct upper_hex" "length upper_hex = 16" by (simp_all add: upper_hex_def)
  have a: "nat (v div 16) < 16" using assms by auto
  have b: "nat (v mod 16) < 16" using assms by auto
  have "digits_value 16 upper_hex [upper_hex ! nat (v div 16), upper_hex ! nat (v mod 16)]
        = 16 * nat (v div 16) + nat (v mod 16)"
    using digits_value_snoc[of 16 upper_hex "[upper_hex ! nat (v div 16)]" "upper_hex ! nat (v mod 16)"]
    by (simp add: digits_value_single index_of_nth[OF al(1)] al(2) a b)
  also have "\<dots> = nat v" using assms by (simp add: nat_div_distrib nat_mod_distrib) 
  finally show ?thesis .
qed

lemma str_int_nonneg:
  "0 \<le> v \<Longrightarrow> digits_value 10 dec_alphabet (str_int v) = nat v \<and> set (str_int v) \<subseteq> set dec_alphabet"
  by (simp add: str_int_def dec_digits_value dec_digits_set)

section \<open>PixelColor views\<close>

text \<open>
  C10. For a PixelColor whose three channels lie in 0..255, \<open>hex_rgb\<close> is
  \<^verbatim>\<open>0x\<close> followed by red, green and blue in that order, each as exactly two
  upper-case hexadecimal digits (eight characters in all, the digit pairs denoting the
  channel values), and \<open>decimal_str\<close> is the three channel values in decimal
  joined by a comma and a space.
\<close>

theorem PixelColor_views_in_range:
  assumes "0 \<le> r c" "r c \<le> 255" "0 \<le> g c" "g c \<le> 255" "0 \<le> b c" "b c \<le> 255"
  shows "hex_rgb c =
           ''0x'' @ [upper_hex ! nat (r c div 16), upper_hex ! nat (r c mod 16),
                     upper_hex ! nat (g c div 16), upper_hex ! nat (g c mod 16),
                     upper_hex ! nat (b c div 16), upper_hex ! nat (b c mod 16)]
         \<and> length (hex_rgb c) = 8
         \<and> set (drop 2 (hex_rgb c)) \<subseteq> set upper_hex
         \<and> digits_value 16 upper_hex (take 2 (drop 2 (hex_rgb c))) = nat (r c)
         \<and> digits_value 16 upper_hex (take 2 (drop 4 (hex_rgb c))) = nat (g c)
         \<and> digits_value 16 upper_hex (take 2 (drop 6 (hex_rgb c))) = nat (b c)
         \<and> decimal_str c = py_join '', '' [str_int (r c), str_int (g c), str_int (b c)]
         \<and> digits_value 10 dec_alphabet (str_int (r c)) = nat (r c)
         \<and> digits_value 10 dec_alphabet (str_int (g c)) = nat (g c)
         \<and> digits_value 10 dec_alphabet (str_int (b c)) = nat (b c)
         \<and> set (str_int (r c)) \<union> set (str_int (g c)) \<union> set (str_int (b c)) \<subseteq> set dec_alphabet"
proof -
  have h: "hex_rgb c =
           ''0x'' @ [upper_hex ! nat (r c div 16), upper_hex ! nat (r c mod 16),
                     upper_hex ! nat (g c div 16), upper_hex ! nat (g c mod 16),
                     upper_hex ! nat (b c div 16), upper_hex ! nat (b c mod 16)]"
    using assms by (simp add: hex_rgb_def format_02X_byte)
  have l: "length upper_hex = 16" by (simp add: upper_hex_def)
  have idx: "nat (r c div 16) < 16" "nat (r c mod 16) < 16" "nat (g c div 16) < 16"
    "nat (g c mod 16) < 16" "nat (b c div 16) < 16" "nat (b c mod 16) < 16"
    using assms by auto
  have s: "set (drop 2 (hex_rgb c)) \<subseteq> set upper_hex"
    using idx l by (simp add: h)
  have d: "decimal_str c = py_join '', '' [str_int (r c), str_int (g c), str_int (b c)]"
    by (simp add: decimal_str_def)
  show ?thesis
    using h s d assms byte_digits_value str_int_nonneg by simp
qed

theorem PixelColor_views_in_range_witness:
  "hex_rgb \<lparr>r = 255, g = 136, b = 0\<rparr> = ''0xFF8800''
   \<and> decimal_str \<lparr>r = 255, g = 136, b = 0\<rparr> = ''255, 136, 0''"
  using PixelColor_views_in_range [of "\<lparr>r = 255, g = 136, b = 0\<rparr>"]
  by (simp add: upper_hex_def decimal_str_def str_int_def dec_digits.simps dec_alphabet_def)

section \<open>Generated statements\<close>

lemma str_int_chars: "set (str_int i) \<subseteq> insert (CHR ''-'') (set dec_alphabet)"
  using dec_digits_set by (auto simp: str_int_def)

lemma newline_notin_str_int: "CHR 0x0A \<notin> set (str_int i)"
  using str_int_chars[of i] by (auto simp: dec_alphabet_def)

text \<open>
  C8. For every handle and every title, class name and process name,
  \<open>gen_win_activate\<close> returns one WinActivate statement that targets the window by
  \<^verbatim>\<open>hex\<close> of the handle (a sign for a negative handle, \<^verbatim>\<open>0x\<close>, then
  lower-case hexadecimal digits denoting its magnitude), followed by a comment that
  lists exactly the non-empty ones of title, class name and process name, in that
  order, joined by a comma and a space; with all three empty there is no comment.
\<close>

theorem gen_win_activate_shape:
  \<open>gen_win_activate h t c p =
     ''WinActivate "ahk_id '' @ hex_py h @ ''"''
     @ (if t = [] \<and> c = [] \<and> p = [] then []
        else ''  ; '' @ py_join '', ''
               (map (\<lambda>(l, v). l @ '': '' @ v)
                  (filter (\<lambda>(l, v). v \<noteq> [])
                     [(''Title'', t), (''Class'', c), (''Process'', p)])))
   \<and> hex_py h = (if h < 0 then ''-'' else []) @ ''0x'' @ hex_digits lower_hex (nat \<bar>h\<bar>)
   \<and> set (hex_digits lower_hex (nat \<bar>h\<bar>)) \<subseteq> set lower_hex
   \<and> digits_value 16 lower_hex (hex_digits lower_hex (nat \<bar>h\<bar>)) = nat \<bar>h\<bar>\<close>
proof -
  have al: "distinct lower_hex" "length lower_hex = 16" by (simp_all add: lower_hex_def)
  have 1: \<open>gen_win_activate h t c p =
     ''WinActivate "ahk_id '' @ hex_py h @ ''"''
     @ (if t = [] \<and> c = [] \<and> p = [] then []
        else ''  ; '' @ py_join '', ''
               (map (\<lambda>(l, v). l @ '': '' @ v)
                  (filter (\<lambda>(l, v). v \<noteq> [])
                     [(''Title'', t), (''Class'', c), (''Process'', p)])))\<close>
    by (simp add: gen_win_activate_def Let_def)
  have 2: "hex_py h = (if h < 0 then ''-'' else []) @ ''0x'' @ hex_digits lower_hex (nat \<bar>h\<bar>)"
    by (simp add: hex_py_def)
  show ?thesis
    using 1 2 hex_digits_set[OF al(2)] hex_digits_value[OF al] by blast
qed

theorem gen_win_activate_shape_witness:
  \<open>gen_win_activate 0x123 ''Test'' [] [] = ''WinActivate "ahk_id 0x123"  ; Title: Test''
   \<and> gen_win_activate 0x123 [] [] [] = ''WinActivate "ahk_id 0x123"''
   \<and> gen_win_activate 0x2A ''Untitled'' ''Notepad'' ''notepad.exe''
       = ''WinActivate "ahk_id 0x2a"  ; Title: Untitled, Class: Notepad, Process: notepad.exe''\<close>
  using gen_win_activate_shape [of "0x123" "''Test''" "[]" "[]"]
    gen_win_activate_shape [of "0x123" "[]" "[]" "[]"]
    gen_win_activate_shape [of "0x2A" "''Untitled''" "''Notepad''" "''notepad.exe''"]
  by (simp add: hex_digits.simps lower_hex_def)

text \<open>
  C4. For every x, y, button, count and coordinate mode, \<open>gen_click\<close> returns the
  CoordMode statement for the mouse, a line break, and one Click statement, which
  always begins with \<^verbatim>\<open>Click x, y\<close>: for the left button and count 1 it is the
  two-argument form; for the left button and a count above 1 the form with an empty
  button argument before the count; for the left button and a count below 1 the form
  that names the button and appends the count; for any other button the button is
  named, and the count follows unless it is 1; a count above 1 always ends the
  statement. The Click statement has no line break unless the button string has one.
\<close>

theorem gen_click_shape:
  \<open>\<exists>stmt.
     gen_click x y button count coord_mode
       = ''CoordMode "Mouse", "'' @ coord_mode @ ''"'' @ ''\<newline>'' @ stmt
     \<and> (\<exists>rest. stmt = ''Click '' @ str_int x @ '', '' @ str_int y @ rest)
     \<and> (button = ''Left'' \<and> count = 1 \<longrightarrow>
          stmt = ''Click '' @ str_int x @ '', '' @ str_int y)
     \<and> (button = ''Left'' \<and> count > 1 \<longrightarrow>
          stmt = ''Click '' @ str_int x @ '', '' @ str_int y @ '',, '' @ str_int count)
     \<and> (button = ''Left'' \<and> count < 1 \<longrightarrow>
          stmt = ''Click '' @ str_int x @ '', '' @ str_int y @ '', "Left", '' @ str_int count)
     \<and> (button \<noteq> ''Left'' \<longrightarrow>
          stmt = ''Click '' @ str_int x @ '', '' @ str_int y @ '', "'' @ button @ ''"''
                 @ (if count = 1 then [] else '', '' @ str_int count))
     \<and> (count > 1 \<longrightarrow> (\<exists>pre. stmt = pre @ '', '' @ str_int count))
     \<and> (CHR 0x0A \<notin> set button \<longrightarrow> CHR 0x0A \<notin> set stmt)\<close>
proof -
  note nl = newline_notin_str_int
  consider (a) "button = ''Left''" "count = 1"
    | (b) "button = ''Left''" "count > 1"
    | (c) "button = ''Left''" "count < 1"
    | (d) "button \<noteq> ''Left''" "count = 1"
    | (e) "button \<noteq> ''Left''" "count \<noteq> 1"
    by fastforce
  then show ?thesis
  proof cases
    case a
    show ?thesis
      by (rule exI[of _ \<open>''Click '' @ str_int x @ '', '' @ str_int y\<close>])
         (use a nl in \<open>simp add: gen_click_def\<close>)
  next
    case b
    have ex: \<open>\<exists>pre. ''Click '' @ str_int x @ '', '' @ str_int y @ '',, '' @ str_int count
                 = pre @ '', '' @ str_int count\<close>
      by (rule exI[of _ \<open>''Click '' @ str_int x @ '', '' @ str_int y @ '',''\<close>]) simp
    show ?thesis
      by (rule exI[of _ \<open>''Click '' @ str_int x @ '', '' @ str_int y @ '',, '' @ str_int count\<close>])
         (use b nl ex in \<open>simp add: gen_click_def\<close>)
  next
    case c
    show ?thesis
      by (rule exI[of _ \<open>''Click '' @ str_int x @ '', '' @ str_int y @ '', "'' @ button @ ''", ''
                          @ str_int count\<close>])
         (use c nl in \<open>simp add: gen_click_def\<close>)
  next
    case d
    show ?thesis
      by (rule exI[of _ \<open>''Click '' @ str_int x @ '', '' @ str_int y @ '', "'' @ button @ ''"''\<close>])
         (use d nl in \<open>simp add: gen_click_def\<close>)
  next
    case e
    have ex: \<open>\<exists>pre. ''Click '' @ str_int x @ '', '' @ str_int y @ '', "'' @ button @ ''", ''
                      @ str_int count
                 = pre @ '', '' @ str_int count\<close>
      by (rule exI[of _ \<open>''Click '' @ str_int x @ '', '' @ str_int y @ '', "'' @ button @ ''"''\<close>])
         simp
    show ?thesis
      by (rule exI[of _ \<open>''Click '' @ str_int x @ '', '' @ str_int y @ '', "'' @ button @ ''", ''
                          @ str_int count\<close>])
         (use e nl ex in \<open>simp add: gen_click_def\<close>)
  qed
qed

theorem gen_click_shape_witness:
  \<open>gen_click 100 200 ''Left'' 1 ''Window'' = ''CoordMode "Mouse", "Window"\<newline>Click 100, 200''
   \<and> gen_click 100 200 ''Left'' 2 ''Screen''
       = ''CoordMode "Mouse", "Screen"\<newline>Click 100, 200,, 2''
   \<and> gen_click 5 6 ''Left'' 0 ''Window''
       = ''CoordMode "Mouse", "Window"\<newline>Click 5, 6, "Left", 0''
   \<and> gen_click 100 200 ''Right'' 1 ''Client''
       = ''CoordMode "Mouse", "Client"\<newline>Click 100, 200, "Right"''
   \<and> gen_click 100 200 ''Right'' 2 ''Window''
       = ''CoordMode "Mouse", "Window"\<newline>Click 100, 200, "Right", 2''\<close>
  using gen_click_shape [of 100 200 "''Left''" 1 "''Window''"]
    gen_click_shape [of 100 200 "''Left''" 2 "''Screen''"]
    gen_click_shape [of 5 6 "''Left''" 0 "''Window''"]
    gen_click_shape [of 100 200 "''Right''" 1 "''Client''"]
    gen_click_shape [of 100 200 "''Right''" 2 "''Window''"]
  by (simp add: str_int_def dec_digits.simps dec_alphabet_def)

text \<open>
  C7. For every x, y, target colour, coordinate mode and tolerance,
  \<open>gen_pixel_loop\<close> emits the CoordMode statement for pixels and then a block
  \<^verbatim>\<open>Loop { ... }\<close> with no count after \<^verbatim>\<open>Loop\<close>. Without the search option
  each iteration reads the pixel with PixelGetColor, compares it for equality with the
  quoted target colour, breaks on a match and otherwise sleeps 100 ms; with the search
  option each iteration calls PixelSearch on the region from (x, y) to (x, y) with the
  target colour and the tolerance, breaks when it reports a find and otherwise sleeps
  100 ms.
\<close>

theorem gen_pixel_loop_shape:
  \<open>gen_pixel_loop x y target_color coord_mode variation False =
     py_join ''\<newline>''
       [''CoordMode "Pixel", "'' @ coord_mode @ ''"'',
        ''Loop {'',
        ''    CurrentColor := PixelGetColor('' @ str_int x @ '', '' @ str_int y @ '')'',
        ''    if (CurrentColor = "'' @ target_color @ ''")'',
        ''        break'',
        ''    Sleep 100'',
        ''}'']
   \<and> gen_pixel_loop x y target_color coord_mode variation True =
     py_join ''\<newline>''
       [''CoordMode "Pixel", "'' @ coord_mode @ ''"'',
        ''Loop {'',
        ''    if PixelSearch(&FoundX, &FoundY, '' @ str_int x @ '', '' @ str_int y @ '', ''
          @ str_int x @ '', '' @ str_int y @ '', "'' @ target_color @ ''", ''
          @ str_int variation @ '')'',
        ''        break'',
        ''    Sleep 100'',
        ''}'']\<close>
  by (simp add: gen_pixel_loop_def)

theorem gen_pixel_loop_shape_witness:
  \<open>gen_pixel_loop 50 60 ''FF0000'' ''Window'' 5 False =
     ''CoordMode "Pixel", "Window"\<newline>Loop {\<newline>    CurrentColor := PixelGetColor(50, 60)\<newline>    if (CurrentColor = "FF0000")\<newline>        break\<newline>    Sleep 100\<newline>}''
   \<and> gen_pixel_loop 50 60 ''FF0000'' ''Window'' 5 True =
     ''CoordMode "Pixel", "Window"\<newline>Loop {\<newline>    if PixelSearch(&FoundX, &FoundY, 50, 60, 50, 60, "FF0000", 5)\<newline>        break\<newline>    Sleep 100\<newline>}''\<close>
  using gen_pixel_loop_shape [of 50 60 "''FF0000''" "''Window''" 5]
  by (simp add: str_int_def dec_digits.simps dec_alphabet_def)

section \<open>Snapshot capture without the operating system's facilities\<close>

text \<open>
  C5. With the platform flag off, \<open>capture_snapshot\<close> returns, for every
  \<open>follow_mouse\<close> and \<open>last_hwnd\<close> (and whatever the operating system's state),
  the same snapshot: the window handle is 0, the colour's \<open>hex_rgb\<close> is
  \<^verbatim>\<open>0x000000\<close>, and every other field is the empty string or 0. The function has
  no failing branch.
\<close>

theorem capture_snapshot_without_os_facilities:
  "capture_snapshot False api follow_mouse last_hwnd = InspectorSnapshot_default
   \<and> WindowInfo.hwnd (window (capture_snapshot False api follow_mouse last_hwnd)) = 0
   \<and> hex_rgb (color (capture_snapshot False api follow_mouse last_hwnd)) = ''0x000000''
   \<and> window (capture_snapshot False api follow_mouse last_hwnd)
       = \<lparr>title = [], class_name = [], WindowInfo.hwnd = 0, pid = 0, process_name = [],
          exe_path = []\<rparr>
   \<and> coords (capture_snapshot False api follow_mouse last_hwnd)
       = \<lparr>screen_x = 0, screen_y = 0, window_x = 0, window_y = 0, client_x = 0, client_y = 0\<rparr>
   \<and> control (capture_snapshot False api follow_mouse last_hwnd)
       = \<lparr>class_nn = [], ControlInfo.hwnd = 0\<rparr>
   \<and> color (capture_snapshot False api follow_mouse last_hwnd) = \<lparr>r = 0, g = 0, b = 0\<rparr>"
  by (simp add: capture_snapshot_def InspectorSnapshot_default_def WindowInfo_default_def
      MouseCoords_default_def ControlInfo_default_def PixelColor_default_def hex_rgb_def
      format_02X_def zfill_def hex_digits.simps upper_hex_def)

section \<open>Registering the global hotkeys\<close>

lemma mods_value: "MOD_CONTROL OR MOD_SHIFT OR MOD_NOREPEAT = 0x4006"
  by (simp add: MOD_CONTROL_def MOD_SHIFT_def MOD_NOREPEAT_def)

lemma py_ord_single: "length s = 1 \<Longrightarrow> py_ord s = Inr (int (hd s))"
  by (cases s) (simp_all add: py_ord_def)

lemma py_ord_not_single: "length s \<noteq> 1 \<Longrightarrow> py_ord s = Inl TypeError"
  by (cases s) (simp_all add: py_ord_def split: list.splits)

lemma RegisterHotKey_frame:
  "RegisterHotKey rhk w a = (ok, w') \<Longrightarrow>
     RegisterHotKey_calls w' = RegisterHotKey_calls w @ [(a, ok)]
     \<and> app_native_filters w' = app_native_filters w"
  by (auto simp: RegisterHotKey_def split: prod.splits)

lemma register_bindings_frame:
  "register_bindings upper rhk bindings errors m w = (res, m', w') \<Longrightarrow>
     native_filter m' = native_filter m \<and> app_native_filters w' = app_native_filters w"
proof (induction bindings arbitrary: errors m w)
  case Nil
  then show ?case by simp
next
  case (Cons bd rest)
  obtain hid letter where bd: "bd = (hid, letter)" by (cases bd)
  show ?case
  proof (cases "py_ord (upper letter)")
    case (Inl e)
    with Cons.prems bd show ?thesis by simp
  next
    case (Inr vk)
    obtain ok w1 where r: "RegisterHotKey rhk w (0, HotkeyID_int hid, 0x4006, vk) = (ok, w1)"
      by (cases "RegisterHotKey rhk w (0, HotkeyID_int hid, 0x4006, vk)")
    from RegisterHotKey_frame[OF r] have f: "app_native_filters w1 = app_native_filters w"
      by simp
    show ?thesis
    proof (cases ok)
      case True
      with Cons.prems bd Inr r
      have "register_bindings upper rhk rest errors
              (m\<lparr>registered := (registered m)(HotkeyID_int hid \<mapsto> vk)\<rparr>) w1 = (res, m', w')"
        by (simp add: mods_value)
      from Cons.IH[OF this] f show ?thesis by simp
    next
      case False
      with Cons.prems bd Inr r
      have "register_bindings upper rhk rest (errors @ [failure_message hid letter]) m w1
              = (res, m', w')"
        by (simp add: mods_value)
      from Cons.IH[OF this] f show ?thesis by simp
    qed
  qed
qed

lemma register_bindings_all:
  assumes "\<forall>(hid, letter) \<in> set bindings. length (upper letter) = 1"
  shows "\<exists>oks m' w'.
     register_bindings upper rhk bindings errors m w
       = (Inr (errors @ map (\<lambda>((hid, l), ok). failure_message hid l)
                          (filter (\<lambda>(bd, ok). \<not> ok) (zip bindings oks))), m', w')
     \<and> length oks = length bindings
     \<and> RegisterHotKey_calls w'
         = RegisterHotKey_calls w
           @ map (\<lambda>((hid, l), ok).
                    ((0, HotkeyID_int hid, 0x4006, int (hd (upper l))), ok))
               (zip bindings oks)
     \<and> registered m'
         = foldl (\<lambda>reg ((hid, l), ok).
                    if ok then reg(HotkeyID_int hid \<mapsto> int (hd (upper l)))
                    else reg)
             (registered m) (zip bindings oks)"
  using assms
proof (induction bindings arbitrary: errors m w)
  case Nil
  show ?case by simp
next
  case (Cons bd rest)
  obtain hid letter where bd: "bd = (hid, letter)" by (cases bd)
  from Cons.prems bd have len: "length (upper letter) = 1"
    and rest: "\<forall>(hid, letter) \<in> set rest. length (upper letter) = 1" by auto
  define vk where "vk = int (hd (upper letter))"
  have ord: "py_ord (upper letter) = Inr vk"
    using py_ord_single[OF len] by (simp add: vk_def)
  obtain ok w1 where r: "RegisterHotKey rhk w (0, HotkeyID_int hid, 0x4006, vk) = (ok, w1)"
    by (cases "RegisterHotKey rhk w (0, HotkeyID_int hid, 0x4006, vk)")
  from RegisterHotKey_frame[OF r]
  have calls1: "RegisterHotKey_calls w1
                  = RegisterHotKey_calls w @ [((0, HotkeyID_int hid, 0x4006, vk), ok)]"
    by simp
  define m1 where
    "m1 = (if ok then m\<lparr>registered := (registered m)(HotkeyID_int hid \<mapsto> vk)\<rparr> else m)"
  define errors1 where
    "errors1 = (if ok then errors else errors @ [failure_message hid letter])"
  have unfold: "register_bindings upper rhk (bd # rest) errors m w
                  = register_bindings upper rhk rest errors1 m1 w1"
    using bd ord r by (simp add: mods_value m1_def errors1_def)
  from Cons.IH[OF rest, of errors1 m1 w1]
  obtain oks m' w' where ih:
    "register_bindings upper rhk rest errors1 m1 w1
       = (Inr (errors1 @ map (\<lambda>((hid, l), ok). failure_message hid l)
                           (filter (\<lambda>(bd, ok). \<not> ok) (zip rest oks))), m', w')"
    "length oks = length rest"
    "RegisterHotKey_calls w'
       = RegisterHotKey_calls w1
         @ map (\<lambda>((hid, l), ok).
                  ((0, HotkeyID_int hid, 0x4006, int (hd (upper l))), ok))
             (zip rest oks)"
    "registered m'
       = foldl (\<lambda>reg ((hid, l), ok).
                  if ok then reg(HotkeyID_int hid \<mapsto> int (hd (upper l)))
                  else reg)
           (registered m1) (zip rest oks)"
    by blast
  show ?case
  proof (intro exI[of _ "ok # oks"] exI[of _ m'] exI[of _ w'] conjI)
    show "register_bindings upper rhk (bd # rest) errors m w
       = (Inr (errors @ map (\<lambda>((hid, l), ok). failure_message hid l)
                          (filter (\<lambda>(bd, ok). \<not> ok) (zip (bd # rest) (ok # oks)))), m', w')"
      using unfold ih(1) bd by (simp add: errors1_def)
    show "length (ok # oks) = length (bd # rest)" using ih(2) by simp
    show "RegisterHotKey_calls w'
         = RegisterHotKey_calls w
           @ map (\<lambda>((hid, l), ok).
                    ((0, HotkeyID_int hid, 0x4006, int (hd (upper l))), ok))
               (zip (bd # rest) (ok # oks))"
      using ih(3) calls1 bd by (simp add: vk_def)
    show "registered m'
         = foldl (\<lambda>reg ((hid, l), ok).
                    if ok then reg(HotkeyID_int hid \<mapsto> int (hd (upper l)))
                    else reg)
             (registered m) (zip (bd # rest) (ok # oks))"
      using ih(4) bd by (simp add: m1_def vk_def)
  qed
qed

lemma register_all_filter_frame:
  assumes "native_filter m \<noteq> None"
  shows "native_filter (fst (snd (register_all iw upper rhk bindings m w))) = native_filter m
         \<and> app_native_filters (snd (snd (register_all iw upper rhk bindings m w)))
             = app_native_filters w"
proof (cases iw)
  case False
  then show ?thesis by (simp add: register_all_def)
next
  case True
  obtain res m' w' where rb: "register_bindings upper rhk bindings [] m w = (res, m', w')"
    by (cases "register_bindings upper rhk bindings [] m w")
  from register_bindings_frame[OF rb] assms
  have "native_filter m' = native_filter m" "app_native_filters w' = app_native_filters w"
    "native_filter m' \<noteq> None"
    by simp_all
  with True rb show ?thesis
    by (auto simp: register_all_def split: sum.splits option.splits)
qed


lemma register_all_single_character_keys:
  assumes "\<forall>(hid, letter) \<in> set bindings. length (upper letter) = 1"
  shows "register_all False upper rhk bindings m w = (Inr [codepoints ''Global hotkeys require Windows''], m, w)
    \<and> (\<exists>oks m' w'.
          register_all True upper rhk bindings m w
            = (Inr (map (\<lambda>((hid, l), ok). failure_message hid l)
                      (filter (\<lambda>(bd, ok). \<not> ok) (zip bindings oks))), m', w')
          \<and> length oks = length bindings
          \<and> RegisterHotKey_calls w'
              = RegisterHotKey_calls w
                @ map (\<lambda>((hid, l), ok).
                         ((0, HotkeyID_int hid, 0x4006, int (hd (upper l))), ok))
                    (zip bindings oks)
          \<and> registered m'
              = foldl (\<lambda>reg ((hid, l), ok).
                         if ok then reg(HotkeyID_int hid \<mapsto> int (hd (upper l)))
                         else reg)
                  (registered m) (zip bindings oks)
          \<and> native_filter m' = Some NativeFilter
          \<and> app_native_filters w'
              = (if native_filter m = None then map_option Suc (app_native_filters w)
                 else app_native_filters w)
          \<and> (\<forall>upper2 rhk2 bindings2.
                native_filter (fst (snd (register_all True upper2 rhk2 bindings2 m' w')))
                  = Some NativeFilter
                \<and> app_native_filters (snd (snd (register_all True upper2 rhk2 bindings2 m' w')))
                    = app_native_filters w'))"
proof (rule conjI)
  show "register_all False upper rhk bindings m w = (Inr [codepoints ''Global hotkeys require Windows''], m, w)"
    by (simp add: register_all_def)
next
  note wf = assms
  from register_bindings_all[OF wf, of rhk "[]" m w]
  obtain oks m1 w1 where rb:
    "register_bindings upper rhk bindings [] m w
       = (Inr (map (\<lambda>((hid, l), ok). failure_message hid l)
                 (filter (\<lambda>(bd, ok). \<not> ok) (zip bindings oks))), m1, w1)"
    and len: "length oks = length bindings"
    and calls: "RegisterHotKey_calls w1
         = RegisterHotKey_calls w
           @ map (\<lambda>((hid, l), ok).
                    ((0, HotkeyID_int hid, 0x4006, int (hd (upper l))), ok))
               (zip bindings oks)"
    and reg: "registered m1
         = foldl (\<lambda>reg ((hid, l), ok).
                    if ok then reg(HotkeyID_int hid \<mapsto> int (hd (upper l)))
                    else reg)
             (registered m) (zip bindings oks)"
    by auto
  from register_bindings_frame[OF rb]
  have fr: "native_filter m1 = native_filter m" "app_native_filters w1 = app_native_filters w"
    by simp_all
  define m' where "m' = (if native_filter m = None then m1\<lparr>native_filter := Some NativeFilter\<rparr> else m1)"
  define w' where "w' = (if native_filter m = None
                         then (case app_native_filters w1 of None \<Rightarrow> w1
                               | Some n \<Rightarrow> w1\<lparr>app_native_filters := Some (Suc n)\<rparr>)
                         else w1)"
  have res: "register_all True upper rhk bindings m w
            = (Inr (map (\<lambda>((hid, l), ok). failure_message hid l)
                      (filter (\<lambda>(bd, ok). \<not> ok) (zip bindings oks))), m', w')"
    using rb fr by (auto simp: register_all_def m'_def w'_def split: option.splits)
  have nf: "native_filter m' = Some NativeFilter"
  proof (cases "native_filter m")
    case None
    then show ?thesis by (simp add: m'_def)
  next
    case (Some a)
    then show ?thesis using fr by (cases a) (simp add: m'_def)
  qed
  have af: "app_native_filters w'
              = (if native_filter m = None then map_option Suc (app_native_filters w)
                 else app_native_filters w)"
    using fr by (auto simp: w'_def split: option.splits)
  have calls': "RegisterHotKey_calls w' = RegisterHotKey_calls w1"
    by (auto simp: w'_def split: option.splits)
  have reg': "registered m' = registered m1"
    by (simp add: m'_def)
  have again: "\<forall>upper2 rhk2 bindings2.
                native_filter (fst (snd (register_all True upper2 rhk2 bindings2 m' w')))
                  = Some NativeFilter
                \<and> app_native_filters (snd (snd (register_all True upper2 rhk2 bindings2 m' w')))
                    = app_native_filters w'"
    using register_all_filter_frame[of m' True _ _ _ w'] nf by simp
  show "\<exists>oks m' w'.
          register_all True upper rhk bindings m w
            = (Inr (map (\<lambda>((hid, l), ok). failure_message hid l)
                      (filter (\<lambda>(bd, ok). \<not> ok) (zip bindings oks))), m', w')
          \<and> length oks = length bindings
          \<and> RegisterHotKey_calls w'
              = RegisterHotKey_calls w
                @ map (\<lambda>((hid, l), ok).
                         ((0, HotkeyID_int hid, 0x4006, int (hd (upper l))), ok))
                    (zip bindings oks)
          \<and> registered m'
              = foldl (\<lambda>reg ((hid, l), ok).
                         if ok then reg(HotkeyID_int hid \<mapsto> int (hd (upper l)))
                         else reg)
                  (registered m) (zip bindings oks)
          \<and> native_filter m' = Some NativeFilter
          \<and> app_native_filters w'
              = (if native_filter m = None then map_option Suc (app_native_filters w)
                 else app_native_filters w)
          \<and> (\<forall>upper2 rhk2 bindings2.
                native_filter (fst (snd (register_all True upper2 rhk2 bindings2 m' w')))
                  = Some NativeFilter
                \<and> app_native_filters (snd (snd (register_all True upper2 rhk2 bindings2 m' w')))
                    = app_native_filters w')"
    using res len calls reg nf af again calls' reg'
    by (intro exI[of _ oks] exI[of _ m'] exI[of _ w']) simp
qed

lemma register_all_single_character_keys_example:
  "fst (register_all True (\<lambda>s. s) (\<lambda>(os :: unit) a. (fst (snd a) \<noteq> 1, os))
          [(CLICK, codepoints ''K''), (DRAG, codepoints ''D'')] HotkeyManager_init
          \<lparr>user32 = (), RegisterHotKey_calls = [], app_native_filters = Some 0\<rparr>)
     = Inr [codepoints ''Failed to register Ctrl+Shift+K (id=CLICK)'']
   \<and> RegisterHotKey_calls (snd (snd (register_all True (\<lambda>s. s)
          (\<lambda>(os :: unit) a. (fst (snd a) \<noteq> 1, os))
          [(CLICK, codepoints ''K''), (DRAG, codepoints ''D'')] HotkeyManager_init
          \<lparr>user32 = (), RegisterHotKey_calls = [], app_native_filters = Some 0\<rparr>)))
     = [((0, 1, 0x4006, 75), False), ((0, 2, 0x4006, 68), True)]
   \<and> app_native_filters (snd (snd (register_all True (\<lambda>s. s)
          (\<lambda>(os :: unit) a. (fst (snd a) \<noteq> 1, os))
          [(CLICK, codepoints ''K''), (DRAG, codepoints ''D'')] HotkeyManager_init
          \<lparr>user32 = (), RegisterHotKey_calls = [], app_native_filters = Some 0\<rparr>)))
     = Some 1"
  using register_all_single_character_keys [of "[(CLICK, codepoints ''K''), (DRAG, codepoints ''D'')]"
      "\<lambda>s. s" "\<lambda>(os :: unit) a. (fst (snd a) \<noteq> 1, os)" HotkeyManager_init
      "\<lparr>user32 = (), RegisterHotKey_calls = [], app_native_filters = Some 0\<rparr>"]
  by (simp add: register_all_def py_ord_def codepoints_def RegisterHotKey_def
      failure_message_def MOD_CONTROL_def MOD_SHIFT_def MOD_NOREPEAT_def HotkeyManager_init_def)

lemma register_bindings_aborts:
  assumes "\<forall>(h, l) \<in> set pre. length (upper l) = 1" and "length (upper letter) \<noteq> 1"
  shows "\<exists>m' w'.
     register_bindings upper rhk (pre @ (hid, letter) # post) errors m w = (Inl TypeError, m', w')
     \<and> length (RegisterHotKey_calls w') = length (RegisterHotKey_calls w) + length pre"
  using assms(1)
proof (induction pre arbitrary: errors m w)
  case Nil
  show ?case using py_ord_not_single[OF assms(2)] by simp
next
  case (Cons bd rest)
  obtain h l where bd: "bd = (h, l)" by (cases bd)
  from Cons.prems bd have len: "length (upper l) = 1"
    and rest: "\<forall>(h, l) \<in> set rest. length (upper l) = 1" by auto
  define vk where "vk = int (hd (upper l))"
  have ord: "py_ord (upper l) = Inr vk"
    using py_ord_single[OF len] by (simp add: vk_def)
  obtain ok w1 where r: "RegisterHotKey rhk w (0, HotkeyID_int h, 0x4006, vk) = (ok, w1)"
    by (cases "RegisterHotKey rhk w (0, HotkeyID_int h, 0x4006, vk)")
  from RegisterHotKey_frame[OF r]
  have calls1: "length (RegisterHotKey_calls w1) = Suc (length (RegisterHotKey_calls w))"
    by simp
  define m1 where
    "m1 = (if ok then m\<lparr>registered := (registered m)(HotkeyID_int h \<mapsto> vk)\<rparr> else m)"
  define errors1 where
    "errors1 = (if ok then errors else errors @ [failure_message h l])"
  have unfold: "register_bindings upper rhk (bd # rest @ (hid, letter) # post) errors m w
                  = register_bindings upper rhk (rest @ (hid, letter) # post) errors1 m1 w1"
    using bd ord r by (simp add: mods_value m1_def errors1_def)
  from Cons.IH[OF rest, of errors1 m1 w1] calls1
  show ?case by (auto simp: unfold)
qed

text \<open>
  C6. For bindings whose keys are, in upper case, single characters, the specified
  behaviour holds (\<open>register_all_single_character_keys\<close>): RegisterHotKey is called
  once for every binding, in order, whatever the earlier calls returned; the returned
  list holds the failure message of exactly the bindings whose call failed; the event
  filter is installed only when the manager has none, so at most once over any number of
  calls; and without the Windows facility nothing is called and the one message
  \<^verbatim>\<open>Global hotkeys require Windows\<close> is returned. It does not hold for every
  binding map: when the upper-case form of a key is not exactly one character,
  \<^verbatim>\<open>ord\<close> raises TypeError out of the loop. The messages collected so far are
  not returned, the bindings after that key are never tried (the only calls made are
  those for the bindings before it), and the event filter is not installed.
\<close>

theorem register_all_aborts_on_key_of_other_length:
  assumes "\<forall>(h, l) \<in> set pre. length (upper l) = 1" and "length (upper letter) \<noteq> 1"
  shows "\<exists>m' w'.
     register_all True upper rhk (pre @ (hid, letter) # post) m w = (Inl TypeError, m', w')
     \<and> native_filter m' = native_filter m
     \<and> app_native_filters w' = app_native_filters w
     \<and> length (RegisterHotKey_calls w') = length (RegisterHotKey_calls w) + length pre"
proof -
  from register_bindings_aborts[OF assms, of rhk hid post "[]" m w]
  obtain m' w' where rb:
    "register_bindings upper rhk (pre @ (hid, letter) # post) [] m w = (Inl TypeError, m', w')"
    and n: "length (RegisterHotKey_calls w') = length (RegisterHotKey_calls w) + length pre"
    by blast
  from register_bindings_frame[OF rb]
  have fr: "native_filter m' = native_filter m" "app_native_filters w' = app_native_filters w"
    by simp_all
  have "register_all True upper rhk (pre @ (hid, letter) # post) m w = (Inl TypeError, m', w')"
    using rb by (simp add: register_all_def)
  with fr n show ?thesis by blast
qed

theorem register_all_aborts_on_key_of_other_length_witness:
  "register_all True (\<lambda>s. s) (\<lambda>(os :: unit) a. (fst (snd a) \<noteq> 1, os))
     [(CLICK, codepoints ''K''), (DRAG, codepoints ''SS''), (PIXEL_LOOP, codepoints ''L''),
      (WIN_ACTIVATE, codepoints ''A'')]
     HotkeyManager_init
     \<lparr>user32 = (), RegisterHotKey_calls = [], app_native_filters = Some 0\<rparr>
   = (Inl TypeError, HotkeyManager_init,
      \<lparr>user32 = (), RegisterHotKey_calls = [((0, 1, 0x4006, 75), False)],
       app_native_filters = Some 0\<rparr>)"
  using register_all_aborts_on_key_of_other_length
    [where pre = "[(CLICK, codepoints ''K'')]" and upper = "\<lambda>s. s"
       and letter = "codepoints ''SS''" and hid = DRAG
       and post = "[(PIXEL_LOOP, codepoints ''L''), (WIN_ACTIVATE, codepoints ''A'')]"
       and rhk = "\<lambda>(os :: unit) a. (fst (snd a) \<noteq> 1, os)" and m = HotkeyManager_init
       and w = "\<lparr>user32 = (), RegisterHotKey_calls = [], app_native_filters = Some 0\<rparr>"]
  by (simp add: register_all_def py_ord_def codepoints_def RegisterHotKey_def
      MOD_CONTROL_def MOD_SHIFT_def MOD_NOREPEAT_def)

section \<open>The runner's state machine\<close>

lemma run_live_noop: "live s \<Longrightarrow> run dirname req tmp outcome s = s"
  by (simp add: run_def)

lemma run_not_live_state:
  "\<not> live s \<Longrightarrow> state (run dirname req tmp outcome s) = (if outcome = Started then RUNNING else ERROR)"
  by (simp add: run_def Let_def set_state_def emit_def start_process_def split: option.splits)

lemma run_not_live_process:
  "\<not> live s \<Longrightarrow>
     \<exists>p. process (run dirname req tmp outcome s) = Some p
         \<and> proc_id p = Suc (processes_created s)
         \<and> proc_state p = (case outcome of Started \<Rightarrow> Running | FailedToStart \<Rightarrow> NotRunning
                            | StartTimedOut \<Rightarrow> Starting)"
  by (simp add: run_def Let_def set_state_def emit_def start_process_def split: option.splits)

lemma run_not_live_emitted:
  "\<not> live s \<Longrightarrow>
     \<exists>cmdline. emitted (run dirname req tmp outcome s)
       = emitted s @ [state_changed RUNNING, stdout_ready cmdline]
         @ (if outcome = Started then []
            else [state_changed ERROR, finished (- 1) ''Failed to start AHK process''])"
  by (simp add: run_def Let_def set_state_def emit_def start_process_def split: option.splits)

lemma run_not_live_spawn:
  "\<not> live s \<Longrightarrow>
     processes_created (run dirname req tmp outcome s) = Suc (processes_created s)
     \<and> (\<exists>arguments.
          os_actions (run dirname req tmp outcome s)
            = os_actions s
              @ (case unsaved_text req of None \<Rightarrow> [] | Some text \<Rightarrow> [WriteFile tmp text])
              @ [StartProcess (Suc (processes_created s)) (ahk_exe req) arguments])"
  by (simp add: run_def Let_def set_state_def emit_def start_process_def split: option.splits)

lemma on_finished_state:
  "state (on_finished exit_code exit_status remove_ok s) = (if exit_code = 0 then IDLE else ERROR)"
  by (simp add: on_finished_def Let_def set_state_def emit_def split: option.splits)

lemma on_finished_emitted:
  "emitted (on_finished exit_code exit_status remove_ok s)
     = emitted s
       @ (if exit_code = 0 then [state_changed IDLE, finished exit_code ''Process exited normally'']
          else [state_changed ERROR,
                finished exit_code
                  (''Process '' @ (if exit_status = CrashExit then ''crashed'' else ''exited'')
                   @ '' with code '' @ str_int exit_code)])"
  by (simp add: on_finished_def Let_def set_state_def emit_def split: option.splits)

lemma on_finished_process: "process (on_finished exit_code exit_status remove_ok s) = process s"
  by (simp add: on_finished_def Let_def set_state_def emit_def split: option.splits)

lemma on_finished_kill_timer: "kill_timer (on_finished exit_code exit_status remove_ok s) = None"
  by (simp add: on_finished_def Let_def set_state_def emit_def split: option.splits)

text \<open>The published state is RUNNING only while the current child runs.\<close>

lemma step_running_child:
  assumes "state s = RUNNING \<longrightarrow> (\<exists>p. process s = Some p \<and> proc_state p = Running)"
  shows "state (step dirname s ev) = RUNNING \<longrightarrow>
           (\<exists>p. process (step dirname s ev) = Some p \<and> proc_state p = Running)"
proof (cases ev)
  case (Run req tmp outcome)
  show ?thesis
  proof (cases "live s")
    case True
    with assms Run show ?thesis by (simp add: run_live_noop)
  next
    case False
    from run_not_live_state[OF False, of dirname req tmp outcome]
      run_not_live_process[OF False, of dirname req tmp outcome]
    show ?thesis using Run by (cases outcome) auto
  qed
next
  case (Stop ms)
  with assms show ?thesis by (auto simp: stop_def split: option.splits)
next
  case (ProcessFinished exit_code exit_status remove_ok)
  with assms show ?thesis
    by (auto simp: process_finished_def on_finished_state split: option.splits if_splits)
next
  case (TimerFires i)
  with assms show ?thesis by (auto simp: timer_fires_def hard_kill_def split: option.splits)
next
  case (StartResolved ok)
  with assms show ?thesis by (auto simp: start_resolved_def split: option.splits)
next
  case (ReadyReadStdout data)
  with assms show ?thesis by (auto simp: on_stdout_def emit_def split: option.splits)
next
  case (ReadyReadStderr data)
  with assms show ?thesis by (auto simp: on_stderr_def emit_def split: option.splits)
qed

lemma exec_running_child:
  "state s = RUNNING \<longrightarrow> (\<exists>p. process s = Some p \<and> proc_state p = Running) \<Longrightarrow>
   state (exec dirname evs s) = RUNNING \<longrightarrow>
     (\<exists>p. process (exec dirname evs s) = Some p \<and> proc_state p = Running)"
proof (induction evs arbitrary: s)
  case Nil
  then show ?case by (simp add: exec_def)
next
  case (Cons ev evs)
  from Cons.IH[OF step_running_child[OF Cons.prems, of dirname ev]]
  show ?case by (simp add: exec_def)
qed

lemma reachable_running_live:
  "state (exec dirname evs AHKRunner_init) = RUNNING \<Longrightarrow> live (exec dirname evs AHKRunner_init)"
proof -
  assume a: "state (exec dirname evs AHKRunner_init) = RUNNING"
  have "state AHKRunner_init = RUNNING \<longrightarrow>
          (\<exists>p. process AHKRunner_init = Some p \<and> proc_state p = Running)"
    by (simp add: AHKRunner_init_def)
  from exec_running_child[OF this, of dirname evs] a
  show ?thesis by (auto simp: live_def)
qed

text \<open>
  C1. While a child process is live, \<open>run\<close> returns the runner as it is: the
  published state, the number of processes created, the requests made to the operating
  system and the signals emitted are all unchanged. In every state reached from the
  initial one by any sequence of events, a published state RUNNING means that the child
  is live, so in every such state \<open>run\<close> is this no-op and the state stays RUNNING.
\<close>

theorem run_while_running_is_noop:
  "(live s \<longrightarrow>
      run dirname req tmp outcome s = s
      \<and> state (run dirname req tmp outcome s) = state s
      \<and> processes_created (run dirname req tmp outcome s) = processes_created s
      \<and> os_actions (run dirname req tmp outcome s) = os_actions s
      \<and> emitted (run dirname req tmp outcome s) = emitted s)
   \<and> (state (exec dirname evs AHKRunner_init) = RUNNING \<longrightarrow>
        live (exec dirname evs AHKRunner_init)
        \<and> run dirname req tmp outcome (exec dirname evs AHKRunner_init)
            = exec dirname evs AHKRunner_init
        \<and> state (run dirname req tmp outcome (exec dirname evs AHKRunner_init)) = RUNNING)"
  using run_live_noop reachable_running_live by simp

theorem run_while_running_is_noop_witness:
  "state (exec (\<lambda>p. p)
            [Run \<lparr>ahk_exe = ''ahk.exe'', script_path = ''a.ahk'', flags = [], args = [],
                  working_dir = ''w'', unsaved_text = None\<rparr> [] Started] AHKRunner_init)
     = RUNNING
   \<and> emitted (run (\<lambda>p. p)
        \<lparr>ahk_exe = ''ahk.exe'', script_path = ''b.ahk'', flags = [], args = [],
          working_dir = ''w'', unsaved_text = None\<rparr> [] Started
        (exec (\<lambda>p. p)
            [Run \<lparr>ahk_exe = ''ahk.exe'', script_path = ''a.ahk'', flags = [], args = [],
                  working_dir = ''w'', unsaved_text = None\<rparr> [] Started] AHKRunner_init))
     = [state_changed RUNNING, stdout_ready ''>> ahk.exe a.ahk\<newline>'']
   \<and> os_actions (run (\<lambda>p. p)
        \<lparr>ahk_exe = ''ahk.exe'', script_path = ''b.ahk'', flags = [], args = [],
          working_dir = ''w'', unsaved_text = None\<rparr> [] Started
        (exec (\<lambda>p. p)
            [Run \<lparr>ahk_exe = ''ahk.exe'', script_path = ''a.ahk'', flags = [], args = [],
                  working_dir = ''w'', unsaved_text = None\<rparr> [] Started] AHKRunner_init))
     = [StartProcess 1 ''ahk.exe'' [''a.ahk'']]"
  using run_while_running_is_noop
    [of "exec (\<lambda>p. p)
            [Run \<lparr>ahk_exe = ''ahk.exe'', script_path = ''a.ahk'', flags = [], args = [],
                  working_dir = ''w'', unsaved_text = None\<rparr> [] Started] AHKRunner_init"
        "\<lambda>p. p"
        "\<lparr>ahk_exe = ''ahk.exe'', script_path = ''b.ahk'', flags = [], args = [],
          working_dir = ''w'', unsaved_text = None\<rparr>" "[]" Started
        "[Run \<lparr>ahk_exe = ''ahk.exe'', script_path = ''a.ahk'', flags = [], args = [],
                  working_dir = ''w'', unsaved_text = None\<rparr> [] Started]"]
  by (simp add: exec_def run_def live_def AHKRunner_init_def set_state_def emit_def
      start_process_def Let_def)

text \<open>
  C2. \<open>on_finished\<close> publishes IDLE and the message \<^verbatim>\<open>Process exited normally\<close>
  for exit code 0, and ERROR for every other exit code, with the message
  \<^verbatim>\<open>Process crashed with code N\<close> when the exit status is CrashExit and
  \<^verbatim>\<open>Process exited with code N\<close> when it is NormalExit: for the same nonzero code
  the two exit statuses give different completion events. The same holds when the
  \<^verbatim>\<open>finished\<close> signal of a running child reaches the runner, and no child is
  live afterwards.
\<close>

theorem on_finished_classification:
  "state (on_finished exit_code exit_status remove_ok s) = (if exit_code = 0 then IDLE else ERROR)
   \<and> emitted (on_finished exit_code exit_status remove_ok s)
       = emitted s
         @ [state_changed (if exit_code = 0 then IDLE else ERROR),
            finished exit_code
              (if exit_code = 0 then ''Process exited normally''
               else ''Process '' @ (if exit_status = CrashExit then ''crashed'' else ''exited'')
                    @ '' with code '' @ str_int exit_code)]
   \<and> (exit_code \<noteq> 0 \<longrightarrow>
        emitted (on_finished exit_code CrashExit remove_ok s)
          \<noteq> emitted (on_finished exit_code NormalExit remove_ok s))
   \<and> ((\<exists>p. process s = Some p \<and> proc_state p = Running) \<longrightarrow>
        state (process_finished exit_code exit_status remove_ok s)
          = (if exit_code = 0 then IDLE else ERROR)
        \<and> emitted (process_finished exit_code exit_status remove_ok s)
            = emitted (on_finished exit_code exit_status remove_ok s)
        \<and> \<not> live (process_finished exit_code exit_status remove_ok s))"
proof (intro conjI impI)
  show "state (on_finished exit_code exit_status remove_ok s) = (if exit_code = 0 then IDLE else ERROR)"
    by (rule on_finished_state)
  show "emitted (on_finished exit_code exit_status remove_ok s)
       = emitted s
         @ [state_changed (if exit_code = 0 then IDLE else ERROR),
            finished exit_code
              (if exit_code = 0 then ''Process exited normally''
               else ''Process '' @ (if exit_status = CrashExit then ''crashed'' else ''exited'')
                    @ '' with code '' @ str_int exit_code)]"
    by (simp add: on_finished_emitted)
  show "emitted (on_finished exit_code CrashExit remove_ok s)
          \<noteq> emitted (on_finished exit_code NormalExit remove_ok s)" if "exit_code \<noteq> 0"
    using that by (simp add: on_finished_emitted)
next
  assume "\<exists>p. process s = Some p \<and> proc_state p = Running"
  then obtain p where p: "process s = Some p" "proc_state p = Running" by blast
  have pf: "process_finished exit_code exit_status remove_ok s
          = on_finished exit_code exit_status remove_ok
              (s\<lparr>process := Some (p\<lparr>proc_state := NotRunning\<rparr>)\<rparr>)"
    using p by (simp add: process_finished_def)
  show "state (process_finished exit_code exit_status remove_ok s)
          = (if exit_code = 0 then IDLE else ERROR)"
    by (simp only: pf on_finished_state)
  show "emitted (process_finished exit_code exit_status remove_ok s)
            = emitted (on_finished exit_code exit_status remove_ok s)"
    by (simp add: pf on_finished_emitted)
  show "\<not> live (process_finished exit_code exit_status remove_ok s)"
    by (simp add: pf live_def on_finished_process)
qed

theorem on_finished_classification_witness:
  "emitted (on_finished 0 NormalExit True AHKRunner_init)
     = [state_changed IDLE, finished 0 ''Process exited normally'']
   \<and> emitted (on_finished 3 NormalExit True AHKRunner_init)
     = [state_changed ERROR, finished 3 ''Process exited with code 3'']
   \<and> emitted (on_finished 3 CrashExit True AHKRunner_init)
     = [state_changed ERROR, finished 3 ''Process crashed with code 3'']
   \<and> state (process_finished 3 CrashExit True
        (exec (\<lambda>p. p)
            [Run \<lparr>ahk_exe = ''ahk.exe'', script_path = ''a.ahk'', flags = [], args = [],
                  working_dir = ''w'', unsaved_text = None\<rparr> [] Started] AHKRunner_init))
     = ERROR"
  using on_finished_classification [of 0 NormalExit True AHKRunner_init]
    on_finished_classification [of 3 NormalExit True AHKRunner_init]
    on_finished_classification [of 3 CrashExit True AHKRunner_init]
    on_finished_classification [of 3 CrashExit True "exec (\<lambda>p. p)
            [Run \<lparr>ahk_exe = ''ahk.exe'', script_path = ''a.ahk'', flags = [], args = [],
                  working_dir = ''w'', unsaved_text = None\<rparr> [] Started] AHKRunner_init"]
  by (simp add: exec_def run_def live_def AHKRunner_init_def set_state_def emit_def
      start_process_def Let_def str_int_def dec_digits.simps dec_alphabet_def)

lemma process_finished_running:
  assumes "process s = Some p" "proc_state p = Running"
  shows "process_finished exit_code exit_status remove_ok s
          = on_finished exit_code exit_status remove_ok
              (s\<lparr>process := Some (p\<lparr>proc_state := NotRunning\<rparr>)\<rparr>)"
  using assms by (simp add: process_finished_def)

lemma run_then_exit:
  assumes "\<not> live s"
  shows "state (process_finished exit_code exit_status remove_ok (run dirname req tmp Started s))
           = (if exit_code = 0 then IDLE else ERROR)
         \<and> \<not> live (process_finished exit_code exit_status remove_ok
                      (run dirname req tmp Started s))"
proof -
  from run_not_live_process[OF assms, of dirname req tmp Started]
  obtain p where p: "process (run dirname req tmp Started s) = Some p" "proc_state p = Running"
    by auto
  show ?thesis
    by (simp add: process_finished_running[OF p] on_finished_state live_def on_finished_process)
qed

lemma init_not_live: "\<not> live AHKRunner_init"
  by (simp add: live_def AHKRunner_init_def)

lemma run_failed_not_live:
  "\<not> live s \<Longrightarrow> \<not> live (run dirname req tmp FailedToStart s)"
  using run_not_live_process[of s dirname req tmp FailedToStart] by (auto simp: live_def)

lemma run_started_live:
  "\<not> live s \<Longrightarrow> live (run dirname req tmp Started s)"
  using run_not_live_process[of s dirname req tmp Started] by (auto simp: live_def)

text \<open>
  C9. The gate of \<open>run\<close> is the liveness of the child, not the published state:
  whenever no child is live, whatever the published state, \<open>run\<close> creates and
  starts a new process and publishes RUNNING followed by the command line; the state is
  RUNNING when the start succeeds (ERROR, with the completion event of code -1, when it
  does not). In particular a runner in state ERROR with no live child goes to RUNNING,
  and such a state is reached both after an exit with a nonzero code and after a failed
  start.
\<close>

theorem run_gate_tests_liveness:
  "(\<not> live s \<longrightarrow>
      (\<exists>cmdline. emitted (run dirname req tmp outcome s)
         = emitted s @ [state_changed RUNNING, stdout_ready cmdline]
           @ (if outcome = Started then []
              else [state_changed ERROR, finished (- 1) ''Failed to start AHK process'']))
      \<and> processes_created (run dirname req tmp outcome s) = Suc (processes_created s)
      \<and> (\<exists>arguments.
            os_actions (run dirname req tmp outcome s)
              = os_actions s
                @ (case unsaved_text req of None \<Rightarrow> [] | Some text \<Rightarrow> [WriteFile tmp text])
                @ [StartProcess (Suc (processes_created s)) (ahk_exe req) arguments])
      \<and> state (run dirname req tmp outcome s) = (if outcome = Started then RUNNING else ERROR)
      \<and> (outcome = Started \<longrightarrow> live (run dirname req tmp outcome s)))
   \<and> (state s = ERROR \<and> \<not> live s \<longrightarrow> state (run dirname req tmp Started s) = RUNNING)
   \<and> state (exec dirname [Run req tmp Started, ProcessFinished 1 NormalExit remove_ok]
               AHKRunner_init) = ERROR
   \<and> state (exec dirname [Run req tmp Started, ProcessFinished 1 NormalExit remove_ok,
                           Run req2 tmp2 Started] AHKRunner_init) = RUNNING
   \<and> state (exec dirname [Run req tmp FailedToStart] AHKRunner_init) = ERROR
   \<and> state (exec dirname [Run req tmp FailedToStart, Run req2 tmp2 Started] AHKRunner_init)
       = RUNNING"
proof (intro conjI impI)
  assume nl: "\<not> live s"
  show "\<exists>cmdline. emitted (run dirname req tmp outcome s)
         = emitted s @ [state_changed RUNNING, stdout_ready cmdline]
           @ (if outcome = Started then []
              else [state_changed ERROR, finished (- 1) ''Failed to start AHK process''])"
    by (rule run_not_live_emitted[OF nl])
  show "processes_created (run dirname req tmp outcome s) = Suc (processes_created s)"
    using run_not_live_spawn[OF nl] by blast
  show "\<exists>arguments.
            os_actions (run dirname req tmp outcome s)
              = os_actions s
                @ (case unsaved_text req of None \<Rightarrow> [] | Some text \<Rightarrow> [WriteFile tmp text])
                @ [StartProcess (Suc (processes_created s)) (ahk_exe req) arguments]"
    using run_not_live_spawn[OF nl] by blast
  show "state (run dirname req tmp outcome s) = (if outcome = Started then RUNNING else ERROR)"
    by (rule run_not_live_state[OF nl])
  show "live (run dirname req tmp outcome s)" if "outcome = Started"
    using that run_started_live[OF nl] by simp
next
  assume "state s = ERROR \<and> \<not> live s"
  then show "state (run dirname req tmp Started s) = RUNNING"
    by (simp add: run_not_live_state)
next
  show "state (exec dirname [Run req tmp Started, ProcessFinished 1 NormalExit remove_ok]
               AHKRunner_init) = ERROR"
    using run_then_exit[OF init_not_live, of 1 NormalExit remove_ok dirname req tmp]
    by (simp add: exec_def)
  show "state (exec dirname [Run req tmp Started, ProcessFinished 1 NormalExit remove_ok,
                           Run req2 tmp2 Started] AHKRunner_init) = RUNNING"
    using run_then_exit[OF init_not_live, of 1 NormalExit remove_ok dirname req tmp]
    by (simp add: exec_def run_not_live_state)
  show "state (exec dirname [Run req tmp FailedToStart] AHKRunner_init) = ERROR"
    by (simp add: exec_def run_not_live_state[OF init_not_live])
  show "state (exec dirname [Run req tmp FailedToStart, Run req2 tmp2 Started] AHKRunner_init)
       = RUNNING"
    using run_failed_not_live[OF init_not_live, of dirname req tmp]
    by (simp add: exec_def run_not_live_state)
qed

theorem run_gate_tests_liveness_witness:
  "state (exec (\<lambda>p. p)
       [Run \<lparr>ahk_exe = ''ahk.exe'', script_path = ''a.ahk'', flags = [], args = [],
             working_dir = ''w'', unsaved_text = None\<rparr> [] Started,
        ProcessFinished 1 NormalExit True] AHKRunner_init) = ERROR
   \<and> \<not> live (exec (\<lambda>p. p)
       [Run \<lparr>ahk_exe = ''ahk.exe'', script_path = ''a.ahk'', flags = [], args = [],
             working_dir = ''w'', unsaved_text = None\<rparr> [] Started,
        ProcessFinished 1 NormalExit True] AHKRunner_init)
   \<and> state (run (\<lambda>p. p)
        \<lparr>ahk_exe = ''ahk.exe'', script_path = ''b.ahk'', flags = ''/ErrorStdOut'', args = ''1 2'',
          working_dir = ''w'', unsaved_text = None\<rparr> [] Started
        (exec (\<lambda>p. p)
          [Run \<lparr>ahk_exe = ''ahk.exe'', script_path = ''a.ahk'', flags = [], args = [],
                working_dir = ''w'', unsaved_text = None\<rparr> [] Started,
           ProcessFinished 1 NormalExit True] AHKRunner_init)) = RUNNING
   \<and> emitted (run (\<lambda>p. p)
        \<lparr>ahk_exe = ''ahk.exe'', script_path = ''b.ahk'', flags = ''/ErrorStdOut'', args = ''1 2'',
          working_dir = ''w'', unsaved_text = None\<rparr> [] Started
        (exec (\<lambda>p. p)
          [Run \<lparr>ahk_exe = ''ahk.exe'', script_path = ''a.ahk'', flags = [], args = [],
                working_dir = ''w'', unsaved_text = None\<rparr> [] Started,
           ProcessFinished 1 NormalExit True] AHKRunner_init))
     = [state_changed RUNNING, stdout_ready ''>> ahk.exe a.ahk\<newline>'',
        state_changed ERROR, finished 1 ''Process exited with code 1'',
        state_changed RUNNING, stdout_ready ''>> ahk.exe /ErrorStdOut b.ahk 1 2\<newline>'']"
  using run_gate_tests_liveness
    [of "exec (\<lambda>p. p)
          [Run \<lparr>ahk_exe = ''ahk.exe'', script_path = ''a.ahk'', flags = [], args = [],
                working_dir = ''w'', unsaved_text = None\<rparr> [] Started,
           ProcessFinished 1 NormalExit True] AHKRunner_init"
        "\<lambda>p. p"
        "\<lparr>ahk_exe = ''ahk.exe'', script_path = ''b.ahk'', flags = ''/ErrorStdOut'', args = ''1 2'',
          working_dir = ''w'', unsaved_text = None\<rparr>" "[]" Started]
  by (simp add: exec_def run_def live_def AHKRunner_init_def set_state_def emit_def
      start_process_def process_finished_def on_finished_def Let_def str_int_def
      dec_digits.simps dec_alphabet_def py_split_def is_space_def)

section \<open>Stopping: the cooperative request and the forced kill\<close>

lemma stop_without_child: "\<not> live s \<Longrightarrow> stop ms s = s"
  by (auto simp: stop_def live_def split: option.splits)

lemma stop_with_child:
  assumes "process s = Some p" "proc_state p \<noteq> NotRunning"
  shows "stop ms s =
           s\<lparr>os_actions := os_actions s @ [Terminate (proc_id p)],
             timers := timers s @ [\<lparr>single_shot = True, interval = ms, active = True\<rparr>],
             kill_timer := Some (length (timers s))\<rparr>"
  using assms by (simp add: stop_def)

lemma timer_fires_kills_iff_live:
  assumes "i < length (timers s)" "active (timers s ! i)"
  shows "os_actions (timer_fires i s)
           = os_actions s
             @ (case process s of
                  None \<Rightarrow> []
                | Some p \<Rightarrow> if proc_state p \<noteq> NotRunning then [Kill (proc_id p)] else [])"
  using assms by (simp add: timer_fires_def hard_kill_def split: option.splits)

lemma on_finished_timers:
  "timers (on_finished exit_code exit_status remove_ok s)
     = (case kill_timer s of
          None \<Rightarrow> timers s
        | Some i \<Rightarrow> (timers s)[i := (timers s ! i)\<lparr>active := False\<rparr>])"
  by (simp add: on_finished_def Let_def set_state_def emit_def split: option.splits)

lemma single_stop_then_exit:
  assumes idle: "\<forall>t \<in> set (timers s). \<not> active t"
    and p: "process s = Some p" "proc_state p = Running"
  shows "(\<forall>t \<in> set (timers (process_finished exit_code exit_status remove_ok (stop ms s))).
            \<not> active t)
         \<and> kill_timer (process_finished exit_code exit_status remove_ok (stop ms s)) = None
         \<and> os_actions (process_finished exit_code exit_status remove_ok (stop ms s))
             = os_actions s @ [Terminate (proc_id p)]
               @ (case temp_file s of
                    None \<Rightarrow> []
                  | Some f \<Rightarrow> if f \<noteq> [] \<and> f \<in> files s then [RemoveFile f] else [])"
proof -
  let ?s1 = "stop ms s"
  have s1: "?s1 = s\<lparr>os_actions := os_actions s @ [Terminate (proc_id p)],
             timers := timers s @ [\<lparr>single_shot = True, interval = ms, active = True\<rparr>],
             kill_timer := Some (length (timers s))\<rparr>"
    using p by (simp add: stop_with_child)
  have pf: "process_finished exit_code exit_status remove_ok ?s1
              = on_finished exit_code exit_status remove_ok
                  (?s1\<lparr>process := Some (p\<lparr>proc_state := NotRunning\<rparr>)\<rparr>)"
    using p by (simp add: process_finished_def s1)
  have t: "timers (process_finished exit_code exit_status remove_ok ?s1)
             = timers s @ [\<lparr>single_shot = True, interval = ms, active = False\<rparr>]"
    by (simp add: pf on_finished_timers) (simp add: s1)
  have a: "os_actions (process_finished exit_code exit_status remove_ok ?s1)
             = os_actions s @ [Terminate (proc_id p)]
               @ (case temp_file s of
                    None \<Rightarrow> []
                  | Some f \<Rightarrow> if f \<noteq> [] \<and> f \<in> files s then [RemoveFile f] else [])"
    by (simp only: pf)
       (simp add: s1 on_finished_def Let_def set_state_def emit_def split: option.splits)
  show ?thesis
    using idle by (simp add: t a) (simp add: pf on_finished_kill_timer)
qed

text \<open>
  C3. The lemmas above give what holds: \<open>stop\<close> does nothing without a live child;
  with one it requests termination and arms a new one-shot timer; a timer that fires
  issues a kill exactly when a child is live at that moment; and after a run with a
  single \<open>stop\<close> the exit leaves no timer armed. The specified behaviour, that an
  exit within the graceful window disarms the pending timer, fails when \<open>stop\<close> was called twice
  during the run: each call creates a timer and overwrites \<open>kill_timer\<close>, the exit
  stops only the last one, and the first stays armed. Evaluated below: after run, stop,
  stop and a normal exit the first timer is still active although \<open>kill_timer\<close> is
  None; when a second run has started and that timer fires, the second child is killed,
  though \<open>stop\<close> was never called for it.
\<close>

theorem stale_kill_timer_after_second_stop:
  "kill_timer (exec dirname
      [Run \<lparr>ahk_exe = ''ahk.exe'', script_path = ''a.ahk'', flags = [], args = [],
            working_dir = ''w'', unsaved_text = None\<rparr> [] Started,
       Stop 2000, Stop 2000, ProcessFinished 0 NormalExit True] AHKRunner_init) = None
   \<and> map active (timers (exec dirname
      [Run \<lparr>ahk_exe = ''ahk.exe'', script_path = ''a.ahk'', flags = [], args = [],
            working_dir = ''w'', unsaved_text = None\<rparr> [] Started,
       Stop 2000, Stop 2000, ProcessFinished 0 NormalExit True] AHKRunner_init))
       = [True, False]
   \<and> os_actions (exec dirname
      [Run \<lparr>ahk_exe = ''ahk.exe'', script_path = ''a.ahk'', flags = [], args = [],
            working_dir = ''w'', unsaved_text = None\<rparr> [] Started,
       Stop 2000, Stop 2000, ProcessFinished 0 NormalExit True,
       Run \<lparr>ahk_exe = ''ahk.exe'', script_path = ''b.ahk'', flags = [], args = [],
            working_dir = ''w'', unsaved_text = None\<rparr> [] Started,
       TimerFires 0] AHKRunner_init)
       = [StartProcess 1 ''ahk.exe'' [''a.ahk''], Terminate 1, Terminate 1,
          StartProcess 2 ''ahk.exe'' [''b.ahk''], Kill 2]"
  by (simp add: exec_def run_def live_def AHKRunner_init_def set_state_def emit_def
      start_process_def process_finished_def on_finished_def stop_def timer_fires_def
      hard_kill_def Let_def)

end
